theory Spec2Isabelle
  imports Main "HOL-Library.Sublist"
begin

section \<open>Python values used by search\_packages.py\<close>

text \<open>
  Python text (\<open>str\<close>) and byte strings (\<open>bytes\<close>) are both lists of \<^typ>\<open>char\<close>.
  A \<^typ>\<open>char\<close> has 256 values, so text is modelled for code points below 256; on
  that range \<open>str.lower\<close> maps \<open>A\<close>..\<open>Z\<close> and the capital letters
  \<open>0xC0\<close>..\<open>0xDE\<close> (without the multiplication sign \<open>0xD7\<close>) to the
  character 32 places further on and leaves every other character alone.
\<close>

type_synonym bytes = string

definition lower_char :: "char \<Rightarrow> char" where
  "lower_char c =
     (let n = (of_char c :: nat)
      in if (65 \<le> n \<and> n \<le> 90) \<or> (192 \<le> n \<and> n \<le> 222 \<and> n \<noteq> 215)
         then char_of (n + 32) else c)"

definition lower :: "string \<Rightarrow> string" where
  "lower s = map lower_char s"

text \<open>\<open>sub in s\<close> on two strings: \<open>sub\<close> occurs in \<open>s\<close> as a contiguous run.\<close>

fun py_in :: "string \<Rightarrow> string \<Rightarrow> bool" where
  "py_in sub [] = (sub = [])"
| "py_in sub (c # cs) = (prefix sub (c # cs) \<or> py_in sub cs)"

text \<open>
  \<open>s.replace(old, new)\<close>: every occurrence of \<open>old\<close>, found from the left and not
  overlapping, is replaced. The recursion drops one character of \<open>old\<close> at a time
  (\<open>skip\<close> counts the characters of a match still to be dropped), which keeps it
  structural. With an empty \<open>old\<close> Python puts \<open>new\<close> before every character and at
  the end.
\<close>

fun replace_from :: "string \<Rightarrow> string \<Rightarrow> nat \<Rightarrow> string \<Rightarrow> string" where
  "replace_from old new skip [] = []"
| "replace_from old new (Suc k) (c # cs) = replace_from old new k cs"
| "replace_from old new 0 (c # cs) =
     (if prefix old (c # cs) then new @ replace_from old new (length old - 1) cs
      else c # replace_from old new 0 cs)"

definition replace :: "string \<Rightarrow> string \<Rightarrow> string \<Rightarrow> string" where
  "replace s old new =
     (if old = [] then new @ concat (map (\<lambda>c. c # new) s)
      else replace_from old new 0 s)"

text \<open>\<open>str(n)\<close> for a non-negative integer: its decimal digits.\<close>

definition digit :: "nat \<Rightarrow> char" where
  "digit d = char_of (48 + d)"

function str_of_nat :: "nat \<Rightarrow> string" where
  "str_of_nat n = (if n < 10 then [digit n] else str_of_nat (n div 10) @ [digit (n mod 10)])"
  by pat_completeness auto
termination
  by (relation "measure id") auto

declare str_of_nat.simps [simp del]

text \<open>
  The exceptions the program can meet, each with the text \<open>str(e)\<close> gives. All of them
  are subclasses of \<open>Exception\<close>, which is what the handler of
  \<open>search_packages_in_repo\<close> catches. The last three are raised by the libraries
  (\<open>requests.get\<close>, \<open>gzip.decompress\<close>, \<open>ET.fromstring\<close>); \<open>urljoin\<close>
  raises \<open>ValueError\<close> on a malformed address.
\<close>

datatype py_exception =
    AttributeError string
  | KeyError string
  | IndexError string
  | ValueError string
  | RequestException string
  | BadGzipFile string
  | ParseError string

fun exc_str :: "py_exception \<Rightarrow> string" where
  "exc_str (AttributeError m) = m"
| "exc_str (KeyError m) = m"
| "exc_str (IndexError m) = m"
| "exc_str (ValueError m) = m"
| "exc_str (RequestException m) = m"
| "exc_str (BadGzipFile m) = m"
| "exc_str (ParseError m) = m"

definition quoted :: "string \<Rightarrow> string" where
  "quoted s = [CHR 0x27] @ s @ [CHR 0x27]"

text \<open>
  \<open>'...{architecture}...'.format(architecture=a, ...)\<close> for templates made of literal
  text, the escapes \<open>{{\<close> and \<open>}}\<close>, and plain \<open>{name}\<close> fields (no conversion
  or format specification), which covers the templates of \<open>REPO_CONFIGS\<close>. The
  second argument is the field name being read after an opening brace. A field with no
  keyword argument raises \<open>KeyError\<close>, an unmatched brace \<open>ValueError\<close>; substituted
  values are not scanned again.
\<close>

fun format_from :: "(string \<times> string) list \<Rightarrow> string option \<Rightarrow> string \<Rightarrow> py_exception + string" where
  "format_from kw None [] = Inr []"
| "format_from kw (Some f) [] = Inl (ValueError (''expected '' @ quoted ''}'' @ '' before end of string''))"
| "format_from kw None [c] =
     (if c = CHR ''{'' then Inl (ValueError (''Single '' @ quoted ''{'' @ '' encountered in format string''))
      else if c = CHR ''}'' then Inl (ValueError (''Single '' @ quoted ''}'' @ '' encountered in format string''))
      else Inr [c])"
| "format_from kw None (c # d # cs) =
     (if (c = CHR ''{'' \<and> d = CHR ''{'') \<or> (c = CHR ''}'' \<and> d = CHR ''}'') then
        (case format_from kw None cs of Inl e \<Rightarrow> Inl e | Inr r \<Rightarrow> Inr (c # r))
      else if c = CHR ''{'' then format_from kw (Some []) (d # cs)
      else if c = CHR ''}'' then Inl (ValueError (''Single '' @ quoted ''}'' @ '' encountered in format string''))
      else (case format_from kw None (d # cs) of Inl e \<Rightarrow> Inl e | Inr r \<Rightarrow> Inr (c # r)))"
| "format_from kw (Some f) (c # cs) =
     (if c = CHR ''}'' then
        (case map_of kw f of
           None \<Rightarrow> Inl (KeyError (quoted f))
         | Some v \<Rightarrow> (case format_from kw None cs of Inl e \<Rightarrow> Inl e | Inr r \<Rightarrow> Inr (v @ r)))
      else format_from kw (Some (f @ [c])) cs)"

definition format :: "string \<Rightarrow> (string \<times> string) list \<Rightarrow> py_exception + string" where
  "format template kw = format_from kw None template"

section \<open>XML trees as ElementTree gives them\<close>

text \<open>
  An element has a tag, its attributes (a dict), its text (\<open>None\<close> when the element has
  no text) and its child elements in document order.
\<close>

datatype xml = Element (tag: string) (attrib: "(string \<times> string) list")
  (elem_text: "string option") (children: "xml list")

definition findall :: "xml \<Rightarrow> string \<Rightarrow> xml list" where
  "findall e t = filter (\<lambda>c. tag c = t) (children e)"

definition find_elem :: "xml \<Rightarrow> string \<Rightarrow> xml option" where
  "find_elem e t = (case findall e t of [] \<Rightarrow> None | c # _ \<Rightarrow> Some c)"

text \<open>\<open>e.findall("*[@type='primary']")\<close>: the children whose \<open>type\<close> attribute is \<open>primary\<close>.\<close>

definition findall_primary :: "xml \<Rightarrow> xml list" where
  "findall_primary e = filter (\<lambda>c. map_of (attrib c) ''type'' = Some ''primary'') (children e)"

text \<open>\<open>x.text\<close> where \<open>x\<close> may be \<open>None\<close> (the result of \<open>find\<close>).\<close>

definition text_of :: "xml option \<Rightarrow> py_exception + string option" where
  "text_of x = (case x of
      None \<Rightarrow> Inl (AttributeError (quoted ''NoneType'' @ '' object has no attribute '' @ quoted ''text''))
    | Some e \<Rightarrow> Inr (elem_text e))"

text \<open>\<open>x.attrib[k]\<close> where \<open>x\<close> may be \<open>None\<close>.\<close>

definition attrib_of :: "xml option \<Rightarrow> string \<Rightarrow> py_exception + string" where
  "attrib_of x k = (case x of
      None \<Rightarrow> Inl (AttributeError (quoted ''NoneType'' @ '' object has no attribute '' @ quoted ''attrib''))
    | Some e \<Rightarrow> (case map_of (attrib e) k of
                   None \<Rightarrow> Inl (KeyError (quoted k))
                 | Some v \<Rightarrow> Inr v))"

text \<open>
  \<open>re.sub(rb'\sxmlns="[^"]+"', b"", data, count=1)\<close>: the leftmost place where a
  whitespace byte is followed by \<open>xmlns="\<close>, at least one byte that is not a double
  quote, and a double quote, is cut out; nothing else changes.
\<close>

definition is_space :: "char \<Rightarrow> bool" where
  "is_space c = (c \<in> set [CHR 0x20, CHR 0x09, CHR 0x0A, CHR 0x0D, CHR 0x0C, CHR 0x0B])"

definition dquote :: char where
  "dquote = CHR 0x22"

fun strip_xmlns :: "bytes \<Rightarrow> bytes" where
  "strip_xmlns [] = []"
| "strip_xmlns (c # cs) =
     (let rest = drop 7 cs;
          val = takeWhile (\<lambda>x. x \<noteq> dquote) rest;
          after = dropWhile (\<lambda>x. x \<noteq> dquote) rest
      in if is_space c \<and> prefix (''xmlns='' @ [dquote]) cs \<and> val \<noteq> [] \<and> after \<noteq> []
         then tl after
         else c # strip_xmlns cs)"

section \<open>Package entries and the filter loop\<close>

text \<open>
  The dict built for a matching package. \<open>arch\<close> is the text of the \<open>arch\<close> element
  and so may be \<open>None\<close>; the f-string of \<open>full_name\<close> renders it with \<open>str\<close>.
\<close>

record package =
  name :: string
  version :: string
  release :: string
  arch :: "string option"
  full_name :: string

definition str_of_text :: "string option \<Rightarrow> string" where
  "str_of_text t = (case t of None \<Rightarrow> ''None'' | Some s \<Rightarrow> s)"

text \<open>Lines 72 to 83: the entry of a package element whose name matched.\<close>

definition make_entry :: "xml \<Rightarrow> string \<Rightarrow> py_exception + package" where
  "make_entry p nm =
     (case text_of (find_elem p ''arch'') of
        Inl e \<Rightarrow> Inl e
      | Inr a \<Rightarrow>
     (case attrib_of (find_elem p ''version'') ''ver'' of
        Inl e \<Rightarrow> Inl e
      | Inr v \<Rightarrow>
     (case attrib_of (find_elem p ''version'') ''rel'' of
        Inl e \<Rightarrow> Inl e
      | Inr r \<Rightarrow>
        Inr \<lparr>name = nm, version = v, release = r, arch = a,
             full_name = nm @ ''-'' @ v @ ''-'' @ r @ ''.'' @ str_of_text a\<rparr>)))"

text \<open>
  Line 70 and the test of line 71: the name of a package element, which must be a
  string for \<open>name.lower()\<close>.
\<close>

definition package_name :: "xml \<Rightarrow> py_exception + string" where
  "package_name p =
     (case text_of (find_elem p ''name'') of
        Inl e \<Rightarrow> Inl e
      | Inr None \<Rightarrow> Inl (AttributeError (quoted ''NoneType'' @ '' object has no attribute '' @ quoted ''lower''))
      | Inr (Some nm) \<Rightarrow> Inr nm)"

text \<open>
  Lines 68 to 85: the loop over the \<open>package\<close> elements, with the list \<open>packages\<close>
  as accumulator. The first exception ends the loop and whatever was collected is lost
  with it.
\<close>

fun package_loop :: "string \<Rightarrow> xml list \<Rightarrow> package list \<Rightarrow> py_exception + package list" where
  "package_loop search_term [] packages = Inr packages"
| "package_loop search_term (p # ps) packages =
     (case package_name p of
        Inl e \<Rightarrow> Inl e
      | Inr nm \<Rightarrow>
          if py_in (lower search_term) (lower nm) then
            (case make_entry p nm of
               Inl e \<Rightarrow> Inl e
             | Inr entry \<Rightarrow> package_loop search_term ps (packages @ [entry]))
          else package_loop search_term ps packages)"

section \<open>The outside world: network and libraries\<close>

text \<open>
  What the program reads from outside is a parameter of the model. \<open>requests_get\<close>
  answers a request from the requests made before it, the address and the timeout,
  with a response or with an exception (no connection, timeout); the other three are
  the library functions \<open>gzip.decompress\<close>, \<open>ET.fromstring\<close> and
  \<open>urllib.parse.urljoin\<close>.
\<close>

record response =
  status_code :: nat
  content :: bytes

record env =
  requests_get :: "(string \<times> nat) list \<Rightarrow> string \<Rightarrow> nat \<Rightarrow> py_exception + response"
  gzip_decompress :: "bytes \<Rightarrow> py_exception + bytes"
  fromstring :: "bytes \<Rightarrow> py_exception + xml"
  urljoin :: "string \<Rightarrow> string \<Rightarrow> py_exception + string"

text \<open>
  The state of a run: the lines the program has printed with \<open>print\<close> so far and the
  network calls made so far (address and timeout), both in order. What \<open>argparse\<close>
  writes itself (usage, error and help messages) is not recorded.
\<close>

record state =
  out :: "string list"
  requests :: "(string \<times> nat) list"

definition init :: state where
  "init = \<lparr>out = [], requests = []\<rparr>"

definition print :: "string \<Rightarrow> state \<Rightarrow> state" where
  "print line st = st\<lparr>out := out st @ [line]\<rparr>"

definition get :: "env \<Rightarrow> string \<Rightarrow> nat \<Rightarrow> state \<Rightarrow> (py_exception + response) \<times> state" where
  "get env url timeout st =
     (requests_get env (requests st) url timeout,
      st\<lparr>requests := requests st @ [(url, timeout)]\<rparr>)"

section \<open>search\_packages\_in\_repo\<close>

text \<open>Line 53: \<open>child.findall("location")[0].attrib["href"]\<close>.\<close>

definition location_href :: "xml \<Rightarrow> py_exception + string" where
  "location_href child =
     (case findall child ''location'' of
        [] \<Rightarrow> Inl (IndexError ''list index out of range'')
      | l # _ \<Rightarrow> attrib_of (Some l) ''href'')"

text \<open>
  Lines 52 to 85: the loop over the \<open>primary\<close> entries of the index. The result is an
  exception, \<open>Some packages\<close> when the loop returned from inside, or \<open>None\<close> when it
  ran to its end. A response other than 200 moves on to the next entry.
\<close>

fun primary_loop ::
  "env \<Rightarrow> string \<Rightarrow> string \<Rightarrow> xml list \<Rightarrow> state \<Rightarrow> (py_exception + package list option) \<times> state" where
  "primary_loop env repomd_url search_term [] st = (Inr None, st)"
| "primary_loop env repomd_url search_term (child # rest) st =
     (case location_href child of
        Inl e \<Rightarrow> (Inl e, st)
      | Inr location \<Rightarrow>
     (case urljoin env (replace repomd_url ''/repodata/repomd.xml'' ''/'') location of
        Inl e \<Rightarrow> (Inl e, st)
      | Inr primary_url \<Rightarrow>
     (case get env primary_url 60 (print ''  Fetching package data...'' st) of
        (Inl e, st') \<Rightarrow> (Inl e, st')
      | (Inr primary_response, st') \<Rightarrow>
          if status_code primary_response \<noteq> 200
          then primary_loop env repomd_url search_term rest st'
          else
     (case gzip_decompress env (content primary_response) of
        Inl e \<Rightarrow> (Inl e, st')
      | Inr primary_data \<Rightarrow>
     (case fromstring env (strip_xmlns primary_data) of
        Inl e \<Rightarrow> (Inl e, st')
      | Inr primary_root \<Rightarrow>
     (case package_loop search_term (findall primary_root ''package'') [] of
        Inl e \<Rightarrow> (Inl e, st')
      | Inr packages \<Rightarrow> (Inr (Some packages), st')))))))"

text \<open>Lines 41 to 88: the body of the \<open>try\<close>.\<close>

definition try_body ::
  "env \<Rightarrow> string \<Rightarrow> string \<Rightarrow> state \<Rightarrow> (py_exception + package list) \<times> state" where
  "try_body env repomd_url search_term st =
     (case get env repomd_url 30 st of
        (Inl e, st') \<Rightarrow> (Inl e, st')
      | (Inr response, st') \<Rightarrow>
          if status_code response \<noteq> 200
          then (Inr [], print (''  Failed to fetch repomd.xml (HTTP ''
                               @ str_of_nat (status_code response) @ '')'') st')
          else
     (case fromstring env (strip_xmlns (content response)) of
        Inl e \<Rightarrow> (Inl e, st')
      | Inr repomd \<Rightarrow>
     (case primary_loop env repomd_url search_term (findall_primary repomd) st' of
        (Inl e, st'') \<Rightarrow> (Inl e, st'')
      | (Inr (Some packages), st'') \<Rightarrow> (Inr packages, st'')
      | (Inr None, st'') \<Rightarrow> (Inr [], print ''  No primary.xml found in repository'' st''))))"

text \<open>The whole function: the header line, the \<open>try\<close>, and the handler of line 90.\<close>

definition search_packages_in_repo ::
  "env \<Rightarrow> string \<Rightarrow> string \<Rightarrow> string \<Rightarrow> state \<Rightarrow> package list \<times> state" where
  "search_packages_in_repo env repomd_url search_term repo_name st =
     (case try_body env repomd_url search_term
             (print (''Searching in '' @ repo_name @ '': '' @ repomd_url) st) of
        (Inl e, st') \<Rightarrow> ([], print (''  Error: '' @ exc_str e) st')
      | (Inr packages, st') \<Rightarrow> (packages, st'))"

section \<open>Configuration and command line\<close>

record repo_config =
  base_url :: string
  repos :: "string list"
  repodata_path :: string

definition centos7_config :: repo_config where
  "centos7_config =
     \<lparr>base_url = ''https://vault.centos.org/7.9.2009/os/{architecture}/'',
      repos = [''os''],
      repodata_path = ''repodata/repomd.xml''\<rparr>"

definition alma8_config :: repo_config where
  "alma8_config =
     \<lparr>base_url = ''https://vault.almalinux.org/8.9/{repo}/{architecture}/os/'',
      repos = [''BaseOS'', ''AppStream'', ''PowerTools''],
      repodata_path = ''repodata/repomd.xml''\<rparr>"

definition alma9_config :: repo_config where
  "alma9_config =
     \<lparr>base_url = ''https://vault.almalinux.org/9.4/{repo}/{architecture}/os/'',
      repos = [''BaseOS'', ''AppStream'', ''CRB'', ''devel''],
      repodata_path = ''repodata/repomd.xml''\<rparr>"

definition REPO_CONFIGS :: "(string \<times> repo_config) list" where
  "REPO_CONFIGS =
     [(''centos7'', centos7_config), (''alma8'', alma8_config), (''alma9'', alma9_config)]"

text \<open>
  The namespace \<open>parse_args\<close> returns. The positional argument and the option
  \<open>--search-term\<close> both have the destination \<open>search_term\<close>, so the namespace has one
  attribute for the two. \<open>repo\<close> is \<open>None\<close> without \<open>--repo\<close>.
\<close>

record args =
  arg_search_term :: "string option"
  arg_distro :: string
  arg_architecture :: string
  arg_repo :: "string option"
  arg_exact :: bool

text \<open>
  The command line as \<open>argparse\<close> reads it, from left to right: every string that is
  not an option is a \<open>Positional\<close>, every occurrence of an option is an item with the
  value given to it.
\<close>

datatype cli_item =
    Positional string
  | Opt_search_term string
  | Opt_distro string
  | Opt_architecture string
  | Opt_repo string
  | Opt_exact
  | Opt_help

type_synonym cli = "cli_item list"

text \<open>
  How a run ends: \<open>main\<close> returns a number, which \<open>exit(main())\<close> makes the exit
  status; \<open>parser.error\<close> raises \<open>SystemExit\<close> with status 2 and \<open>-h\<close> raises it
  with status 0; an exception nobody catches ends the process with status 1.
\<close>

datatype outcome = Return nat | SystemExit nat | Uncaught py_exception


text \<open>
  Lines 107 to 130, as \<open>argparse\<close> (Python 3.11) carries out the six declarations.
  Every attribute starts at its default. The items are taken from left to right and
  each one stores its value when it is reached, so the last value stored wins:
  \<^item> the first \<open>Positional\<close> is the positional argument and stores into
    \<open>search_term\<close>; any further one is an unrecognized argument, which is an error
    (status 2) raised once the whole command line has been read;
  \<^item> \<open>--search-term\<close> stores into the same \<open>search_term\<close>;
  \<^item> \<open>--distro\<close> is checked against its \<open>choices\<close> where it stands, with an error
    (status 2) at once;
  \<^item> \<open>-h\<close> prints the help and exits with status 0 where it stands;
  \<^item> at the end of the command line the positional argument, if no string was left
    for it (\<open>nargs="?"\<close>), stores its default \<open>None\<close> into \<open>search_term\<close>, over
    whatever \<open>--search-term\<close> had stored there.
  The arguments \<open>seen\<close> and \<open>extras\<close> say whether the positional argument has been
  filled and whether an unrecognized argument was met.
\<close>

definition distro_choices :: "string list" where
  "distro_choices = [''centos7'', ''alma8'', ''alma9'']"

definition defaults :: args where
  "defaults = \<lparr>arg_search_term = None, arg_distro = ''alma9'', arg_architecture = ''x86_64'',
               arg_repo = None, arg_exact = False\<rparr>"

fun parse_items :: "cli_item list \<Rightarrow> bool \<Rightarrow> bool \<Rightarrow> args \<Rightarrow> outcome + args" where
  "parse_items [] seen extras a =
     (if extras then Inl (SystemExit 2)
      else if seen then Inr a
      else Inr (a\<lparr>arg_search_term := None\<rparr>))"
| "parse_items (Positional v # rest) seen extras a =
     (if seen then parse_items rest seen True a
      else parse_items rest True extras (a\<lparr>arg_search_term := Some v\<rparr>))"
| "parse_items (Opt_search_term v # rest) seen extras a =
     parse_items rest seen extras (a\<lparr>arg_search_term := Some v\<rparr>)"
| "parse_items (Opt_distro d # rest) seen extras a =
     (if d \<in> set distro_choices then parse_items rest seen extras (a\<lparr>arg_distro := d\<rparr>)
      else Inl (SystemExit 2))"
| "parse_items (Opt_architecture v # rest) seen extras a =
     parse_items rest seen extras (a\<lparr>arg_architecture := v\<rparr>)"
| "parse_items (Opt_repo v # rest) seen extras a =
     parse_items rest seen extras (a\<lparr>arg_repo := Some v\<rparr>)"
| "parse_items (Opt_exact # rest) seen extras a =
     parse_items rest seen extras (a\<lparr>arg_exact := True\<rparr>)"
| "parse_items (Opt_help # rest) seen extras a = Inl (SystemExit 0)"

definition parse_args :: "cli \<Rightarrow> outcome + args" where
  "parse_args c = parse_items c False False defaults"

text \<open>Truth of an optional string (\<open>None\<close> and the empty string are false) and \<open>x or y\<close>.\<close>

definition truthy :: "string option \<Rightarrow> bool" where
  "truthy x = (case x of None \<Rightarrow> False | Some s \<Rightarrow> s \<noteq> [])"

definition py_or :: "string option \<Rightarrow> string option \<Rightarrow> string option" where
  "py_or x y = (if truthy x then x else y)"

section \<open>main\<close>

text \<open>Lines 150 to 153: the address of the index of one sub-repository.\<close>

definition repomd_url_of :: "repo_config \<Rightarrow> string \<Rightarrow> string \<Rightarrow> string \<Rightarrow> py_exception + string" where
  "repomd_url_of config distro architecture repo =
     (case (if distro = ''centos7''
            then format (base_url config) [(''architecture'', architecture)]
            else format (base_url config) [(''repo'', repo), (''architecture'', architecture)]) of
        Inl e \<Rightarrow> Inl e
      | Inr base \<Rightarrow> Inr (base @ repodata_path config))"

text \<open>Lines 159 to 162: the listing under \<open>Found n packages:\<close>.\<close>

fun print_found :: "bool \<Rightarrow> string \<Rightarrow> package list \<Rightarrow> state \<Rightarrow> state" where
  "print_found exact search_term [] st = st"
| "print_found exact search_term (pkg # pkgs) st =
     (if exact \<and> name pkg \<noteq> search_term then print_found exact search_term pkgs st
      else print_found exact search_term pkgs (print (''    '' @ full_name pkg) st))"

text \<open>
  Lines 149 to 166: the loop over \<open>repos_to_search\<close>, with \<open>all_packages\<close> and the
  state as accumulators.
\<close>

fun repo_loop ::
  "env \<Rightarrow> repo_config \<Rightarrow> string \<Rightarrow> string \<Rightarrow> string \<Rightarrow> bool \<Rightarrow> string list
     \<Rightarrow> (package \<times> string) list \<Rightarrow> state \<Rightarrow> (py_exception + (package \<times> string) list) \<times> state" where
  "repo_loop env config distro architecture search_term exact [] all_packages st =
     (Inr all_packages, st)"
| "repo_loop env config distro architecture search_term exact (repo # rest) all_packages st =
     (case repomd_url_of config distro architecture repo of
        Inl e \<Rightarrow> (Inl e, st)
      | Inr repomd_url \<Rightarrow>
     (case search_packages_in_repo env repomd_url search_term (distro @ ''/'' @ repo) st of
        (packages, st') \<Rightarrow>
          if packages \<noteq> [] then
            repo_loop env config distro architecture search_term exact rest
              (all_packages @ map (\<lambda>pkg. (pkg, repo)) packages)
              (print ''''
                (print_found exact search_term packages
                  (print (''  Found '' @ str_of_nat (length packages) @ '' packages:'') st')))
          else
            repo_loop env config distro architecture search_term exact rest all_packages
              (print '''' (print ''  No packages found'' st'))))"

text \<open>Lines 168 to 178: the banner and the flat listing.\<close>

definition summary :: "bool \<Rightarrow> string \<Rightarrow> (package \<times> string) list \<Rightarrow> state \<Rightarrow> state" where
  "summary exact search_term all_packages st =
     (let bar = replicate 60 CHR ''='';
          st1 = print bar st;
          st2 = print (''SUMMARY: '' @ str_of_nat (length all_packages)
                       @ '' packages found containing '' @ quoted search_term) st1;
          st3 = print bar st2;
          shown = (if exact then filter (\<lambda>(pkg, repo). name pkg = search_term) all_packages
                   else all_packages)
      in fold (\<lambda>(pkg, repo). print (full_name pkg @ '' (from '' @ repo @ '')'')) shown st3)"

text \<open>Line 145: \<open>[args.repo] if args.repo else config["repos"]\<close>.\<close>

definition repos_to_search :: "string option \<Rightarrow> repo_config \<Rightarrow> string list" where
  "repos_to_search r config =
     (case r of
        None \<Rightarrow> repos config
      | Some repo \<Rightarrow> if repo = [] then repos config else [repo])"

text \<open>
  Lines 132 to 180: \<open>main\<close> after \<open>parse_args\<close>. A search term that is \<open>None\<close>
  or empty ends the run through \<open>parser.error\<close>.
\<close>

definition main_body :: "env \<Rightarrow> args \<Rightarrow> state \<Rightarrow> outcome \<times> state" where
  "main_body env a st =
     (case py_or (arg_search_term a) (arg_search_term a) of
        None \<Rightarrow> (SystemExit 2, st)
      | Some search_term \<Rightarrow>
          if search_term = [] then (SystemExit 2, st)
          else
     (case map_of REPO_CONFIGS (arg_distro a) of
        None \<Rightarrow> (Return 1, print (''Unsupported distro: '' @ arg_distro a) st)
      | Some config \<Rightarrow>
     (case repo_loop env config (arg_distro a) (arg_architecture a) search_term (arg_exact a)
             (repos_to_search (arg_repo a) config) [] st of
        (Inl e, st') \<Rightarrow> (Uncaught e, st')
      | (Inr all_packages, st') \<Rightarrow>
          (Return 0, summary (arg_exact a) search_term all_packages st'))))"

text \<open>
  \<open>main\<close> from its first line: parse the command line, then the body. The process
  exits with \<open>exit_status\<close> of the outcome.
\<close>

definition main :: "env \<Rightarrow> cli \<Rightarrow> outcome \<times> state" where
  "main env c =
     (case parse_args c of
        Inl oc \<Rightarrow> (oc, init)
      | Inr a \<Rightarrow> main_body env a init)"

section \<open>Sample worlds\<close>

text \<open>
  Concrete worlds on which the program is run below. A site is a table from addresses
  to documents. The bytes served at an address of the table are the address itself,
  \<open>gzip.decompress\<close> is the identity, the parser looks the bytes up in the table, every
  other address answers 404, and \<open>urljoin\<close> appends the reference to the base, which is
  what \<open>urllib.parse.urljoin\<close> gives for a base that ends in a slash, has no empty path
  segment, and a plain relative path.
\<close>

definition serve :: "(string \<times> xml) list \<Rightarrow> env" where
  "serve site =
     \<lparr>requests_get = (\<lambda>h url timeout.
         case map_of site url of
           None \<Rightarrow> Inr \<lparr>status_code = 404, content = []\<rparr>
         | Some doc \<Rightarrow> Inr \<lparr>status_code = 200, content = url\<rparr>),
      gzip_decompress = (\<lambda>b. Inr b),
      fromstring = (\<lambda>b.
         case map_of site b of
           None \<Rightarrow> Inl (ParseError ''syntax error: line 1, column 0'')
         | Some doc \<Rightarrow> Inr doc),
      urljoin = (\<lambda>base ref. Inr (base @ ref))\<rparr>"

definition index_doc :: "string list \<Rightarrow> xml" where
  "index_doc hrefs =
     Element ''repomd'' [] None
       (Element ''revision'' [] (Some ''1700000000'') []
        # map (\<lambda>h. Element ''data'' [(''type'', ''primary'')] None
                      [Element ''location'' [(''href'', h)] None []]) hrefs
        @ [Element ''data'' [(''type'', ''filelists'')] None
             [Element ''location'' [(''href'', ''repodata/filelists.xml.gz'')] None []]])"

definition package_elem :: "string \<Rightarrow> string \<Rightarrow> string \<Rightarrow> string \<Rightarrow> xml" where
  "package_elem nm ar ver rel =
     Element ''package'' [(''type'', ''rpm'')] None
       [Element ''name'' [] (Some nm) [],
        Element ''arch'' [] (Some ar) [],
        Element ''version'' [(''epoch'', ''0''), (''ver'', ver), (''rel'', rel)] None []]"

definition primary_doc :: "xml list \<Rightarrow> xml" where
  "primary_doc pkgs = Element ''metadata'' [(''packages'', str_of_nat (length pkgs))] None pkgs"

definition kernel_doc :: xml where
  "kernel_doc = primary_doc
     [package_elem ''kernel'' ''x86_64'' ''5.14.0'' ''427.el9'',
      package_elem ''bash'' ''x86_64'' ''5.1.8'' ''9.el9'',
      package_elem ''kernel-core'' ''x86_64'' ''5.14.0'' ''427.el9'']"

definition alma9_url :: "string \<Rightarrow> string \<Rightarrow> string" where
  "alma9_url repo path = ''https://vault.almalinux.org/9.4/'' @ repo @ ''/x86_64/os/'' @ path"

text \<open>BaseOS and AppStream of alma9 both list the kernel packages; CRB and devel are absent.\<close>

definition alma9_site :: "(string \<times> xml) list" where
  "alma9_site =
     [(alma9_url ''BaseOS'' ''repodata/repomd.xml'', index_doc [''repodata/primary.xml.gz'']),
      (alma9_url ''BaseOS'' ''repodata/primary.xml.gz'', kernel_doc),
      (alma9_url ''AppStream'' ''repodata/repomd.xml'', index_doc [''repodata/primary.xml.gz'']),
      (alma9_url ''AppStream'' ''repodata/primary.xml.gz'', kernel_doc)]"

definition centos7_url :: "string \<Rightarrow> string" where
  "centos7_url path = ''https://vault.centos.org/7.9.2009/os/x86_64/'' @ path"

definition centos7_site :: "(string \<times> xml) list" where
  "centos7_site =
     [(centos7_url ''repodata/repomd.xml'', index_doc [''repodata/primary.xml.gz'']),
      (centos7_url ''repodata/primary.xml.gz'', kernel_doc)]"

text \<open>
  An index with two \<open>primary\<close> entries: the package list of the first is gone (404),
  that of the second is there.
\<close>

definition fallback_site :: "(string \<times> xml) list" where
  "fallback_site =
     [(alma9_url ''BaseOS'' ''repodata/repomd.xml'',
       index_doc [''repodata/old-primary.xml.gz'', ''repodata/primary.xml.gz'']),
      (alma9_url ''BaseOS'' ''repodata/primary.xml.gz'', kernel_doc)]"

text \<open>A package list whose last matching element has no \<open>arch\<close> child.\<close>

definition broken_doc :: xml where
  "broken_doc = primary_doc
     [package_elem ''kernel'' ''x86_64'' ''5.14.0'' ''427.el9'',
      package_elem ''bash'' ''x86_64'' ''5.1.8'' ''9.el9'',
      Element ''package'' [(''type'', ''rpm'')] None
        [Element ''name'' [] (Some ''kernel-core'') [],
         Element ''version'' [(''epoch'', ''0''), (''ver'', ''5.14.0''), (''rel'', ''427.el9'')] None []]]"

definition broken_site :: "(string \<times> xml) list" where
  "broken_site =
     [(alma9_url ''BaseOS'' ''repodata/repomd.xml'', index_doc [''repodata/primary.xml.gz'']),
      (alma9_url ''BaseOS'' ''repodata/primary.xml.gz'', broken_doc)]"

text \<open>
  A run with \<open>--architecture x/repodata/repomd.xml.d\<close>: the address of the index then
  holds \<open>/repodata/repomd.xml\<close> twice.
\<close>

definition nested_index_url :: string where
  "nested_index_url =
     ''https://vault.almalinux.org/9.4/BaseOS/x/repodata/repomd.xml.d/os/repodata/repomd.xml''"

definition nested_site :: "(string \<times> xml) list" where
  "nested_site =
     [(nested_index_url, index_doc [''repodata/primary.xml.gz'']),
      (''https://vault.almalinux.org/9.4/BaseOS/x/.d/os/repodata/primary.xml.gz'', kernel_doc)]"

definition sample_args :: args where
  "sample_args = \<lparr>arg_search_term = Some ''kernel'', arg_distro = ''alma9'',
                   arg_architecture = ''x86_64'', arg_repo = Some ''BaseOS'', arg_exact = True\<rparr>"

definition entry :: "string \<Rightarrow> string \<Rightarrow> string \<Rightarrow> string \<Rightarrow> package" where
  "entry nm ver rel ar =
     \<lparr>name = nm, version = ver, release = rel, arch = Some ar,
      full_name = nm @ ''-'' @ ver @ ''-'' @ rel @ ''.'' @ ar\<rparr>"

definition kernel_entry :: package where
  "kernel_entry = entry ''kernel'' ''5.14.0'' ''427.el9'' ''x86_64''"

definition kernel_core_entry :: package where
  "kernel_core_entry = entry ''kernel-core'' ''5.14.0'' ''427.el9'' ''x86_64''"

text \<open>An index whose only package list is gone.\<close>

definition missing_list_site :: "(string \<times> xml) list" where
  "missing_list_site =
     [(alma9_url ''BaseOS'' ''repodata/repomd.xml'', index_doc [''repodata/primary.xml.gz''])]"

text \<open>A package list whose only element has an \<open>arch\<close> child without text.\<close>

definition textless_arch_elem :: xml where
  "textless_arch_elem =
     Element ''package'' [(''type'', ''rpm'')] None
       [Element ''name'' [] (Some ''kernel'') [],
        Element ''arch'' [] None [],
        Element ''version'' [(''epoch'', ''0''), (''ver'', ''5.14.0''), (''rel'', ''427.el9'')] None []]"

definition textless_arch_site :: "(string \<times> xml) list" where
  "textless_arch_site =
     [(alma9_url ''BaseOS'' ''repodata/repomd.xml'', index_doc [''repodata/primary.xml.gz'']),
      (alma9_url ''BaseOS'' ''repodata/primary.xml.gz'', primary_doc [textless_arch_elem])]"

definition textless_arch_entry :: package where
  "textless_arch_entry =
     \<lparr>name = ''kernel'', version = ''5.14.0'', release = ''427.el9'', arch = None,
      full_name = ''kernel-5.14.0-427.el9.None''\<rparr>"

section \<open>Notions used in the statements\<close>

text \<open>
  The filter as the specification words it: the name of the element contains the
  search term as a substring once both are in lower case.
\<close>

definition name_matches :: "string \<Rightarrow> xml \<Rightarrow> bool" where
  "name_matches search_term p =
     (case package_name p of
        Inl e \<Rightarrow> False
      | Inr nm \<Rightarrow> sublist (lower search_term) (lower nm))"

text \<open>\<open>e\<close> is the entry built from the package element \<open>p\<close>.\<close>

definition entry_of :: "package \<Rightarrow> xml \<Rightarrow> bool" where
  "entry_of e p = (package_name p = Inr (name e) \<and> make_entry p (name e) = Inr e)"

text \<open>
  A package element on which the loop raises: it has no usable name, or its name
  matches and one of \<open>arch\<close>, \<open>version\<close>, \<open>ver\<close>, \<open>rel\<close> is missing.
\<close>

definition lacks_field :: "string \<Rightarrow> xml \<Rightarrow> bool" where
  "lacks_field search_term p =
     (case package_name p of
        Inl e \<Rightarrow> True
      | Inr nm \<Rightarrow> sublist (lower search_term) (lower nm) \<and> isl (make_entry p nm))"

text \<open>
  The full identifier as the code builds it: the name, the version and the release
  joined by \<open>-\<close>, then \<open>.\<close> and the architecture, where an architecture that is
  \<open>None\<close> appears as the text \<open>None\<close>.
\<close>

definition identifier_rule :: "package \<Rightarrow> bool" where
  "identifier_rule e =
     (case arch e of
        Some ar \<Rightarrow> full_name e = name e @ ''-'' @ version e @ ''-'' @ release e @ ''.'' @ ar
      | None \<Rightarrow> full_name e = name e @ ''-'' @ version e @ ''-'' @ release e @ ''.None'')"

text \<open>
  The concatenation rule as the specification words it,
  \<open>name + "-" + version + "-" + release + "." + arch\<close> on the stored fields. Python's
  \<open>+\<close> joins strings only: with an architecture that is \<open>None\<close> it raises
  \<open>TypeError\<close>, and the rule gives no identifier (\<open>None\<close> here).
\<close>

definition concatenation :: "package \<Rightarrow> string option" where
  "concatenation e =
     (case arch e of
        Some ar \<Rightarrow> Some (name e @ ''-'' @ version e @ ''-'' @ release e @ ''.'' @ ar)
      | None \<Rightarrow> None)"

text \<open>
  The values stored into \<open>search_term\<close> while a command line is read, in order: that
  of the first positional string and that of every \<open>--search-term\<close>. \<open>seen\<close> says
  whether the positional argument has been filled.
\<close>

fun search_term_writes :: "cli_item list \<Rightarrow> bool \<Rightarrow> string list" where
  "search_term_writes [] seen = []"
| "search_term_writes (Positional v # rest) seen =
     (if seen then search_term_writes rest seen else v # search_term_writes rest True)"
| "search_term_writes (Opt_search_term v # rest) seen = v # search_term_writes rest seen"
| "search_term_writes (i # rest) seen = search_term_writes rest seen"

definition is_positional :: "cli_item \<Rightarrow> bool" where
  "is_positional i = (case i of Positional v \<Rightarrow> True | _ \<Rightarrow> False)"

text \<open>
  What \<open>search_term\<close> holds after parsing, as \<open>argparse\<close> documents it: the last
  value stored, and \<open>None\<close> when the command line has no positional string, whose
  default is then stored last.
\<close>

definition stored_search_term :: "cli \<Rightarrow> string option" where
  "stored_search_term c =
     (if list_ex is_positional c
      then (case rev (search_term_writes c False) of [] \<Rightarrow> None | v # _ \<Rightarrow> Some v)
      else None)"



text \<open>
  \<open>root\<close> is the package list a search of the index at \<open>repomd_url\<close> ended on: the last
  request of \<open>reqs\<close> went to the address joined from the location of one of the
  entries \<open>cs\<close>, was answered with status 200, and the answer decompressed and parsed
  to \<open>root\<close>.
\<close>

definition package_list_of ::
  "env \<Rightarrow> string \<Rightarrow> xml list \<Rightarrow> (string \<times> nat) list \<Rightarrow> xml \<Rightarrow> bool" where
  "package_list_of env repomd_url cs reqs root =
     (\<exists>h child location primary_url primary_response primary_data.
        reqs = h @ [(primary_url, 60)]
      \<and> child \<in> set cs
      \<and> location_href child = Inr location
      \<and> urljoin env (replace repomd_url ''/repodata/repomd.xml'' ''/'') location = Inr primary_url
      \<and> requests_get env h primary_url 60 = Inr primary_response
      \<and> status_code primary_response = 200
      \<and> gzip_decompress env (content primary_response) = Inr primary_data
      \<and> fromstring env (strip_xmlns primary_data) = Inr root)"

text \<open>The lines of the summary: the banner for a count, and the line of one pair.\<close>

definition banner :: "string \<Rightarrow> nat \<Rightarrow> string list" where
  "banner search_term n =
     [replicate 60 CHR ''='',
      ''SUMMARY: '' @ str_of_nat n @ '' packages found containing '' @ quoted search_term,
      replicate 60 CHR ''='']"

definition summary_line :: "package \<times> string \<Rightarrow> string" where
  "summary_line x = full_name (fst x) @ '' (from '' @ snd x @ '')''"

text \<open>What one pass of the loop prints after the search of a sub-repository.\<close>

definition report :: "bool \<Rightarrow> string \<Rightarrow> package list \<Rightarrow> state \<Rightarrow> state" where
  "report ex search_term packages st =
     (if packages \<noteq> [] then
        print '''' (print_found ex search_term packages
          (print (''  Found '' @ str_of_nat (length packages) @ '' packages:'') st))
      else print '''' (print ''  No packages found'' st))"

text \<open>
  The lists \<open>search_packages_in_repo\<close> returns during the loop, one for each
  sub-repository, in the order of the loop.
\<close>

fun repo_results ::
  "env \<Rightarrow> repo_config \<Rightarrow> string \<Rightarrow> string \<Rightarrow> string \<Rightarrow> bool \<Rightarrow> string list \<Rightarrow> state
     \<Rightarrow> package list list" where
  "repo_results env config distro architecture search_term ex [] st = []"
| "repo_results env config distro architecture search_term ex (repo # rest) st =
     (case repomd_url_of config distro architecture repo of
        Inl e \<Rightarrow> []
      | Inr repomd_url \<Rightarrow>
          fst (search_packages_in_repo env repomd_url search_term (distro @ ''/'' @ repo) st)
          # repo_results env config distro architecture search_term ex rest
              (snd (repo_loop env config distro architecture search_term ex [repo] [] st)))"

text \<open>The label of the one sub-repository a centos7 run searches.\<close>

definition centos7_label :: "string option \<Rightarrow> string" where
  "centos7_label r = (case r of None \<Rightarrow> ''os'' | Some repo \<Rightarrow> if repo = [] then ''os'' else repo)"

text \<open>
  The fetch of the index failed: the request made after the requests \<open>h\<close> raised, was
  answered with a status other than 200, or its answer did not parse.
\<close>

definition index_failed :: "env \<Rightarrow> (string \<times> nat) list \<Rightarrow> string \<Rightarrow> bool" where
  "index_failed env h repomd_url =
     (case requests_get env h repomd_url 30 of
        Inl e \<Rightarrow> True
      | Inr r \<Rightarrow> status_code r \<noteq> 200 \<or> isl (fromstring env (strip_xmlns (content r))))"

text \<open>
  The fetch of a package list failed: the request made after the requests \<open>h\<close> raised,
  was answered with a status other than 200, or its answer did not decompress or did
  not parse.
\<close>

definition package_list_failed :: "env \<Rightarrow> (string \<times> nat) list \<Rightarrow> string \<Rightarrow> bool" where
  "package_list_failed env h primary_url =
     (case requests_get env h primary_url 60 of
        Inl e \<Rightarrow> True
      | Inr r \<Rightarrow>
          status_code r \<noteq> 200
          \<or> (case gzip_decompress env (content r) of
                Inl e \<Rightarrow> True
              | Inr data \<Rightarrow> isl (fromstring env (strip_xmlns data))))"

text \<open>
  The directory of the index as the specification words it: the address of the index
  without its trailing segment \<open>repodata/repomd.xml\<close>.
\<close>

definition index_directory :: "string \<Rightarrow> string" where
  "index_directory repomd_url =
     (if suffix ''repodata/repomd.xml'' repomd_url
      then take (length repomd_url - length ''repodata/repomd.xml'') repomd_url
      else repomd_url)"

section \<open>Strings and the filter loop\<close>

lemma py_in_iff_sublist: "py_in sub s = sublist sub s"
  by (induction s) (auto simp: sublist_Cons_right)

lemma package_loop_Inr:
  "package_loop t ps acc = Inr res \<Longrightarrow>
     \<exists>new. res = acc @ new \<and> list_all2 entry_of new (filter (name_matches t) ps)"
proof (induction ps arbitrary: acc)
  case Nil
  then show ?case by simp
next
  case (Cons p ps)
  from Cons.prems obtain nm where nm: "package_name p = Inr nm"
    by (auto split: sum.splits)
  show ?case
  proof (cases "py_in (lower t) (lower nm)")
    case True
    with Cons.prems nm obtain e where e: "make_entry p nm = Inr e"
      and rest: "package_loop t ps (acc @ [e]) = Inr res"
      by (auto split: sum.splits)
    from Cons.IH[OF rest] obtain new where new: "res = (acc @ [e]) @ new"
      "list_all2 entry_of new (filter (name_matches t) ps)" by blast
    from e have "name e = nm" by (auto simp: make_entry_def split: sum.splits)
    with e nm True have "name_matches t p" "entry_of e p"
      by (simp_all add: name_matches_def entry_of_def py_in_iff_sublist)
    with new show ?thesis
      by (intro exI[of _ "e # new"]) simp
  next
    case False
    with Cons.prems nm have rest: "package_loop t ps acc = Inr res" by simp
    from False nm have "\<not> name_matches t p"
      by (simp add: name_matches_def py_in_iff_sublist)
    with Cons.IH[OF rest] show ?thesis
      by simp
  qed
qed

lemma package_loop_Inl:
  "p \<in> set ps \<Longrightarrow> lacks_field t p \<Longrightarrow> isl (package_loop t ps acc)"
proof (induction ps arbitrary: acc)
  case Nil
  then show ?case by simp
next
  case (Cons q ps)
  show ?case
  proof (cases "q = p")
    case True
    with Cons.prems(2) show ?thesis
      by (auto simp: lacks_field_def py_in_iff_sublist split: sum.splits)
  next
    case False
    with Cons.prems have "p \<in> set ps" by simp
    from Cons.IH[OF this Cons.prems(2)] show ?thesis
      by (auto split: sum.splits)
  qed
qed

section \<open>One sub-repository\<close>

lemma requests_print [simp]: "requests (print l st) = requests st"
  by (simp add: print_def)

lemma out_print [simp]: "out (print l st) = out st @ [l]"
  by (simp add: print_def)

lemma get_simps [simp]:
  "fst (get env url timeout st) = requests_get env (requests st) url timeout"
  "requests (snd (get env url timeout st)) = requests st @ [(url, timeout)]"
  "out (snd (get env url timeout st)) = out st"
  by (simp_all add: get_def)

lemma primary_loop_Some:
  "primary_loop env u t cs st = (Inr (Some ps), st') \<Longrightarrow>
     \<exists>root. package_list_of env u cs (requests st') root
          \<and> package_loop t (findall root ''package'') [] = Inr ps"
proof (induction cs arbitrary: st)
  case Nil
  then show ?case by simp
next
  case (Cons child rest)
  from Cons.prems obtain location where loc: "location_href child = Inr location"
    by (auto split: sum.splits)
  from Cons.prems loc obtain primary_url
    where pu: "urljoin env (replace u ''/repodata/repomd.xml'' ''/'') location = Inr primary_url"
    by (auto split: sum.splits)
  define st1 where "st1 = snd (get env primary_url 60 (print ''  Fetching package data...'' st))"
  have req1: "requests st1 = requests st @ [(primary_url, 60)]"
    by (simp add: st1_def)
  from Cons.prems loc pu obtain resp
    where resp: "requests_get env (requests st) primary_url 60 = Inr resp"
    by (auto simp: get_def split: sum.splits prod.splits)
  show ?case
  proof (cases "status_code resp = 200")
    case False
    with Cons.prems loc pu resp have "primary_loop env u t rest st1 = (Inr (Some ps), st')"
      by (auto simp: get_def st1_def split: sum.splits prod.splits)
    from Cons.IH[OF this] obtain root where
      "package_list_of env u rest (requests st') root"
      "package_loop t (findall root ''package'') [] = Inr ps" by blast
    then show ?thesis
      unfolding package_list_of_def by (metis list.set_intros(2))
  next
    case True
    with Cons.prems loc pu resp obtain data root where
      d: "gzip_decompress env (content resp) = Inr data"
      and r: "fromstring env (strip_xmlns data) = Inr root"
      and p: "package_loop t (findall root ''package'') [] = Inr ps"
      and s: "st' = st1"
      by (auto simp: get_def st1_def split: sum.splits prod.splits)
    have "package_list_of env u (child # rest) (requests st') root"
      unfolding package_list_of_def using loc pu resp True d r s req1
      by (metis list.set_intros(1))
    with p show ?thesis by blast
  qed
qed

lemma try_body_Inr:
  assumes "try_body env u t st = (Inr ps, st')" and "ps \<noteq> []"
  shows "\<exists>idx repomd root.
           requests_get env (requests st) u 30 = Inr idx \<and> status_code idx = 200
         \<and> fromstring env (strip_xmlns (content idx)) = Inr repomd
         \<and> package_list_of env u (findall_primary repomd) (requests st') root
         \<and> package_loop t (findall root ''package'') [] = Inr ps"
proof -
  from assms obtain idx where idx: "requests_get env (requests st) u 30 = Inr idx"
    by (auto simp: try_body_def get_def split: sum.splits prod.splits)
  with assms have ok: "status_code idx = 200"
    by (auto simp: try_body_def get_def split: sum.splits prod.splits if_splits)
  with assms idx obtain repomd where repomd: "fromstring env (strip_xmlns (content idx)) = Inr repomd"
    by (auto simp: try_body_def get_def split: sum.splits prod.splits if_splits)
  with assms idx ok have
    "primary_loop env u t (findall_primary repomd) (snd (get env u 30 st)) = (Inr (Some ps), st')"
    by (auto simp: try_body_def get_def split: sum.splits prod.splits if_splits option.splits)
  from primary_loop_Some[OF this] idx ok repomd show ?thesis by blast
qed

lemma search_packages_in_repo_nonempty:
  assumes "search_packages_in_repo env u t n st = (ps, st')" and "ps \<noteq> []"
  shows "\<exists>idx repomd root.
           requests_get env (requests st) u 30 = Inr idx \<and> status_code idx = 200
         \<and> fromstring env (strip_xmlns (content idx)) = Inr repomd
         \<and> package_list_of env u (findall_primary repomd) (requests st') root
         \<and> package_loop t (findall root ''package'') [] = Inr ps"
proof -
  from assms have "try_body env u t (print (''Searching in '' @ n @ '': '' @ u) st) = (Inr ps, st')"
    by (auto simp: search_packages_in_repo_def split: sum.splits prod.splits)
  from try_body_Inr[OF this assms(2)] show ?thesis by simp
qed

lemma primary_loop_frame:
  assumes "requests st2 = requests st1"
  shows "fst (primary_loop env u t cs st2) = fst (primary_loop env u t cs st1)
       \<and> requests (snd (primary_loop env u t cs st2)) = requests (snd (primary_loop env u t cs st1))
       \<and> (\<exists>lines. out (snd (primary_loop env u t cs st1)) = out st1 @ lines
                 \<and> out (snd (primary_loop env u t cs st2)) = out st2 @ lines)"
  using assms
proof (induction cs arbitrary: st1 st2)
  case Nil
  then show ?case by simp
next
  case (Cons child rest)
  show ?case
  proof (cases "location_href child")
    case (Inl e)
    then show ?thesis using Cons.prems by simp
  next
    case (Inr location)
    note loc = this
    show ?thesis
    proof (cases "urljoin env (replace u ''/repodata/repomd.xml'' ''/'') location")
      case (Inl e)
      then show ?thesis using Cons.prems loc by simp
    next
      case (Inr primary_url)
      note pu = this
      define s1 where "s1 = snd (get env primary_url 60 (print ''  Fetching package data...'' st1))"
      define s2 where "s2 = snd (get env primary_url 60 (print ''  Fetching package data...'' st2))"
      have rq: "requests s2 = requests s1" using Cons.prems by (simp add: s1_def s2_def)
      have o1: "out s1 = out st1 @ [''  Fetching package data...'']" by (simp add: s1_def)
      have o2: "out s2 = out st2 @ [''  Fetching package data...'']" by (simp add: s2_def)
      have g1: "get env primary_url 60 (print ''  Fetching package data...'' st1)
                  = (requests_get env (requests st1) primary_url 60, s1)"
        by (simp add: s1_def get_def)
      have g2: "get env primary_url 60 (print ''  Fetching package data...'' st2)
                  = (requests_get env (requests st1) primary_url 60, s2)"
        using Cons.prems by (simp add: s2_def get_def)
      show ?thesis
      proof (cases "requests_get env (requests st1) primary_url 60")
        case (Inl e)
        then show ?thesis using loc pu g1 g2 rq o1 o2 by simp
      next
        case (Inr resp)
        show ?thesis
        proof (cases "status_code resp = 200")
          case True
          then show ?thesis using Inr loc pu g1 g2 rq o1 o2
            by (simp split: sum.splits)
        next
          case False
          from Cons.IH[OF rq] obtain lines where
            a: "fst (primary_loop env u t rest s2) = fst (primary_loop env u t rest s1)"
            and b: "requests (snd (primary_loop env u t rest s2)) = requests (snd (primary_loop env u t rest s1))"
            and c: "out (snd (primary_loop env u t rest s1)) = out s1 @ lines"
            and d: "out (snd (primary_loop env u t rest s2)) = out s2 @ lines"
            by blast
          show ?thesis using False Inr loc pu g1 g2 a b c d o1 o2 by simp
        qed
      qed
    qed
  qed
qed

lemma try_body_frame:
  assumes "requests st2 = requests st1"
  shows "fst (try_body env u t st2) = fst (try_body env u t st1)
       \<and> requests (snd (try_body env u t st2)) = requests (snd (try_body env u t st1))
       \<and> (\<exists>lines. out (snd (try_body env u t st1)) = out st1 @ lines
                 \<and> out (snd (try_body env u t st2)) = out st2 @ lines)"
proof -
  define s1 where "s1 = snd (get env u 30 st1)"
  define s2 where "s2 = snd (get env u 30 st2)"
  have rq: "requests s2 = requests s1" using assms by (simp add: s1_def s2_def)
  have o: "out s1 = out st1" "out s2 = out st2" by (simp_all add: s1_def s2_def)
  have g: "get env u 30 st1 = (requests_get env (requests st1) u 30, s1)"
          "get env u 30 st2 = (requests_get env (requests st1) u 30, s2)"
    using assms by (simp_all add: s1_def s2_def get_def)
  show ?thesis
  proof (cases "requests_get env (requests st1) u 30")
    case (Inl e)
    then show ?thesis using g rq o by (simp add: try_body_def)
  next
    case (Inr resp)
    note resp = this
    show ?thesis
    proof (cases "status_code resp = 200")
      case False
      then show ?thesis using resp g rq o by (simp add: try_body_def)
    next
      case True
      note ok = this
      show ?thesis
      proof (cases "fromstring env (strip_xmlns (content resp))")
        case (Inl e)
        then show ?thesis using resp ok g rq o by (simp add: try_body_def)
      next
        case (Inr repomd)
        from primary_loop_frame[OF rq, of env u t "findall_primary repomd"]
        obtain lines where
          a: "fst (primary_loop env u t (findall_primary repomd) s2)
                = fst (primary_loop env u t (findall_primary repomd) s1)"
          and b: "requests (snd (primary_loop env u t (findall_primary repomd) s2))
                = requests (snd (primary_loop env u t (findall_primary repomd) s1))"
          and c: "out (snd (primary_loop env u t (findall_primary repomd) s1)) = out s1 @ lines"
          and d: "out (snd (primary_loop env u t (findall_primary repomd) s2)) = out s2 @ lines"
          by blast
        obtain r1 p1 where e1: "primary_loop env u t (findall_primary repomd) s1 = (r1, p1)"
          by (cases "primary_loop env u t (findall_primary repomd) s1")
        obtain r2 p2 where e2: "primary_loop env u t (findall_primary repomd) s2 = (r2, p2)"
          by (cases "primary_loop env u t (findall_primary repomd) s2")
        from a b c d e1 e2 have "r2 = r1" "requests p2 = requests p1"
          "out p1 = out st1 @ lines" "out p2 = out st2 @ lines" using o by simp_all
        then show ?thesis using resp ok Inr g e1 e2
          by (simp add: try_body_def split: sum.splits option.splits)
      qed
    qed
  qed
qed

lemma search_packages_in_repo_frame:
  assumes "requests st2 = requests st1"
  shows "fst (search_packages_in_repo env u t n2 st2) = fst (search_packages_in_repo env u t n1 st1)
       \<and> requests (snd (search_packages_in_repo env u t n2 st2))
           = requests (snd (search_packages_in_repo env u t n1 st1))
       \<and> (\<exists>lines. out (snd (search_packages_in_repo env u t n1 st1))
                     = out st1 @ (''Searching in '' @ n1 @ '': '' @ u) # lines
                 \<and> out (snd (search_packages_in_repo env u t n2 st2))
                     = out st2 @ (''Searching in '' @ n2 @ '': '' @ u) # lines)"
proof -
  define s1 where "s1 = print (''Searching in '' @ n1 @ '': '' @ u) st1"
  define s2 where "s2 = print (''Searching in '' @ n2 @ '': '' @ u) st2"
  have rq: "requests s2 = requests s1" using assms by (simp add: s1_def s2_def)
  from try_body_frame[OF rq, of env u t] obtain lines where
    a: "fst (try_body env u t s2) = fst (try_body env u t s1)"
    and b: "requests (snd (try_body env u t s2)) = requests (snd (try_body env u t s1))"
    and c: "out (snd (try_body env u t s1)) = out s1 @ lines"
    and d: "out (snd (try_body env u t s2)) = out s2 @ lines"
    by blast
  obtain r1 p1 where e1: "try_body env u t s1 = (r1, p1)" by (cases "try_body env u t s1")
  obtain r2 p2 where e2: "try_body env u t s2 = (r2, p2)" by (cases "try_body env u t s2")
  from a b c d e1 e2 have f: "r2 = r1" "requests p2 = requests p1"
    "out p1 = out st1 @ (''Searching in '' @ n1 @ '': '' @ u) # lines"
    "out p2 = out st2 @ (''Searching in '' @ n2 @ '': '' @ u) # lines"
    by (simp_all add: s1_def s2_def)
  have d1: "search_packages_in_repo env u t n1 st1
              = (case r1 of Inl e \<Rightarrow> ([], print (''  Error: '' @ exc_str e) p1)
                          | Inr packages \<Rightarrow> (packages, p1))"
    unfolding search_packages_in_repo_def s1_def[symmetric] e1 by (simp split: sum.splits)
  have d2: "search_packages_in_repo env u t n2 st2
              = (case r2 of Inl e \<Rightarrow> ([], print (''  Error: '' @ exc_str e) p2)
                          | Inr packages \<Rightarrow> (packages, p2))"
    unfolding search_packages_in_repo_def s2_def[symmetric] e2 by (simp split: sum.splits)
  show ?thesis
    unfolding d1 d2 using f by (cases r1) simp_all
qed

lemma print_found_out:
  "out (print_found ex t ps st)
     = out st @ map (\<lambda>pkg. ''    '' @ full_name pkg) (filter (\<lambda>pkg. \<not> ex \<or> name pkg = t) ps)"
  by (induction ps arbitrary: st) auto

lemma print_found_requests [simp]: "requests (print_found ex t ps st) = requests st"
  by (induction ps arbitrary: st) auto

lemma fold_print_out:
  "out (fold (\<lambda>x. print (f x)) xs st) = out st @ map f xs"
  by (induction xs arbitrary: st) auto

lemma fold_print_requests [simp]:
  "requests (fold (\<lambda>x. print (f x)) xs st) = requests st"
  by (induction xs arbitrary: st) auto

lemma summary_out:
  "out (summary ex t all_packages st)
     = out st @ banner t (length all_packages)
       @ map summary_line (filter (\<lambda>x. \<not> ex \<or> name (fst x) = t) all_packages)"
  by (simp add: summary_def Let_def split_def fold_print_out banner_def summary_line_def[abs_def])

lemma summary_requests [simp]: "requests (summary ex t all_packages st) = requests st"
  by (simp add: summary_def Let_def split_def)

section \<open>Configuration and the loop over sub-repositories\<close>

lemma map_of_REPO_CONFIGS:
  "map_of REPO_CONFIGS d = Some config \<Longrightarrow>
     (d = ''centos7'' \<and> config = centos7_config)
   \<or> (d = ''alma8'' \<and> config = alma8_config)
   \<or> (d = ''alma9'' \<and> config = alma9_config)"
  by (auto simp: REPO_CONFIGS_def split: if_splits)

lemma map_of_REPO_CONFIGS_None:
  "map_of REPO_CONFIGS d = None \<longleftrightarrow> d \<notin> set distro_choices"
  by (auto simp: REPO_CONFIGS_def distro_choices_def)

lemma repomd_url_of_centos7:
  "repomd_url_of centos7_config ''centos7'' architecture repo
     = Inr (''https://vault.centos.org/7.9.2009/os/'' @ architecture @ ''/repodata/repomd.xml'')"
  by (simp add: centos7_config_def repomd_url_of_def format_def)

lemma repomd_url_of_alma8:
  "repomd_url_of alma8_config ''alma8'' architecture repo
     = Inr (''https://vault.almalinux.org/8.9/'' @ repo @ ''/'' @ architecture
            @ ''/os/repodata/repomd.xml'')"
  by (simp add: alma8_config_def repomd_url_of_def format_def)

lemma repomd_url_of_alma9:
  "repomd_url_of alma9_config ''alma9'' architecture repo
     = Inr (''https://vault.almalinux.org/9.4/'' @ repo @ ''/'' @ architecture
            @ ''/os/repodata/repomd.xml'')"
  by (simp add: alma9_config_def repomd_url_of_def format_def)

lemma repomd_url_of_configured:
  assumes "map_of REPO_CONFIGS d = Some config"
  shows "\<exists>u. repomd_url_of config d architecture repo = Inr u"
  using map_of_REPO_CONFIGS[OF assms] repomd_url_of_centos7 repomd_url_of_alma8
    repomd_url_of_alma9 by blast

lemma requests_report [simp]: "requests (report ex t ps st) = requests st"
  by (simp add: report_def)

lemma repo_loop_step:
  assumes "repomd_url_of config d a repo = Inr u"
    and "search_packages_in_repo env u t (d @ ''/'' @ repo) st = (ps, st')"
  shows "repo_loop env config d a t ex (repo # rest) all_packages st
           = repo_loop env config d a t ex rest
               (all_packages @ map (\<lambda>pkg. (pkg, repo)) ps) (report ex t ps st')"
  using assms by (simp add: report_def)

lemma repo_loop_Inr:
  assumes "\<And>repo. \<exists>u. repomd_url_of config d a repo = Inr u"
  shows "\<exists>res st'. repo_loop env config d a t ex rs all_packages st = (Inr res, st')"
proof (induction rs arbitrary: all_packages st)
  case Nil
  then show ?case by simp
next
  case (Cons repo rest)
  from assms obtain u where u: "repomd_url_of config d a repo = Inr u" by blast
  obtain ps st' where s: "search_packages_in_repo env u t (d @ ''/'' @ repo) st = (ps, st')"
    by (cases "search_packages_in_repo env u t (d @ ''/'' @ repo) st")
  show ?case unfolding repo_loop_step[OF u s] by (rule Cons.IH)
qed

lemma repo_loop_concat:
  assumes "repo_loop env config d a t ex rs all_packages st = (Inr res, st')"
  shows "res = all_packages
           @ concat (map (\<lambda>(repo, ps). map (\<lambda>pkg. (pkg, repo)) ps)
                         (zip rs (repo_results env config d a t ex rs st)))"
  using assms
proof (induction rs arbitrary: all_packages st)
  case Nil
  then show ?case by simp
next
  case (Cons repo rest)
  from Cons.prems obtain u where u: "repomd_url_of config d a repo = Inr u"
    by (auto split: sum.splits)
  obtain ps s1 where s: "search_packages_in_repo env u t (d @ ''/'' @ repo) st = (ps, s1)"
    by (cases "search_packages_in_repo env u t (d @ ''/'' @ repo) st")
  have one: "snd (repo_loop env config d a t ex [repo] [] st) = report ex t ps s1"
    unfolding repo_loop_step[OF u s] by simp
  from Cons.prems have
    "repo_loop env config d a t ex rest (all_packages @ map (\<lambda>pkg. (pkg, repo)) ps) (report ex t ps s1)
       = (Inr res, st')"
    unfolding repo_loop_step[OF u s] .
  from Cons.IH[OF this] have
    "res = (all_packages @ map (\<lambda>pkg. (pkg, repo)) ps)
           @ concat (map (\<lambda>(repo, ps). map (\<lambda>pkg. (pkg, repo)) ps)
                         (zip rest (repo_results env config d a t ex rest (report ex t ps s1))))" .
  moreover have "repo_results env config d a t ex (repo # rest) st
                   = ps # repo_results env config d a t ex rest (report ex t ps s1)"
    using u s one by simp
  ultimately show ?case by simp
qed

lemma repo_loop_frame:
  assumes "requests st2 = requests st1"
  shows "fst (repo_loop env config d a t ex2 rs all_packages st2)
           = fst (repo_loop env config d a t ex1 rs all_packages st1)
       \<and> requests (snd (repo_loop env config d a t ex2 rs all_packages st2))
           = requests (snd (repo_loop env config d a t ex1 rs all_packages st1))"
  using assms
proof (induction rs arbitrary: all_packages st1 st2)
  case Nil
  then show ?case by simp
next
  case (Cons repo rest)
  show ?case
  proof (cases "repomd_url_of config d a repo")
    case (Inl e)
    then show ?thesis using Cons.prems by simp
  next
    case (Inr u)
    obtain ps1 s1 where s1: "search_packages_in_repo env u t (d @ ''/'' @ repo) st1 = (ps1, s1)"
      by (cases "search_packages_in_repo env u t (d @ ''/'' @ repo) st1")
    obtain ps2 s2 where s2: "search_packages_in_repo env u t (d @ ''/'' @ repo) st2 = (ps2, s2)"
      by (cases "search_packages_in_repo env u t (d @ ''/'' @ repo) st2")
    from search_packages_in_repo_frame[OF Cons.prems, of env u t "d @ ''/'' @ repo" "d @ ''/'' @ repo"] s1 s2
    have eq: "ps2 = ps1" "requests s2 = requests s1" by simp_all
    then have "requests (report ex2 t ps2 s2) = requests (report ex1 t ps1 s1)" by simp
    from Cons.IH[OF this] show ?thesis
      unfolding repo_loop_step[OF Inr s1] repo_loop_step[OF Inr s2] eq(1) .
  qed
qed

lemma main_body_configured:
  assumes "arg_search_term a = Some t" and "t \<noteq> []"
    and "map_of REPO_CONFIGS (arg_distro a) = Some config"
  shows "\<exists>res st'.
           repo_loop env config (arg_distro a) (arg_architecture a) t (arg_exact a)
             (repos_to_search (arg_repo a) config) [] st = (Inr res, st')
         \<and> main_body env a st = (Return 0, summary (arg_exact a) t res st')"
proof -
  from repo_loop_Inr[of config "arg_distro a" "arg_architecture a" env t "arg_exact a"
         "repos_to_search (arg_repo a) config" "[]" st]
       repomd_url_of_configured[OF assms(3)]
  obtain res st' where
    "repo_loop env config (arg_distro a) (arg_architecture a) t (arg_exact a)
       (repos_to_search (arg_repo a) config) [] st = (Inr res, st')" by blast
  then show ?thesis using assms by (simp add: main_body_def py_or_def truthy_def)
qed

subsection \<open>Entries and their identifier\<close>

lemma make_entry_rule:
  "make_entry p nm = Inr e \<Longrightarrow> name e = nm \<and> identifier_rule e"
  by (auto simp: make_entry_def identifier_rule_def str_of_text_def split: sum.splits option.splits)

lemma search_packages_in_repo_entries:
  assumes "e \<in> set (fst (search_packages_in_repo env u t n st))"
  shows "\<exists>p. entry_of e p"
proof -
  obtain ps st' where s: "search_packages_in_repo env u t n st = (ps, st')"
    by (cases "search_packages_in_repo env u t n st")
  with assms have "e \<in> set ps" "ps \<noteq> []" by auto
  from search_packages_in_repo_nonempty[OF s this(2)] obtain root
    where "package_loop t (findall root ''package'') [] = Inr ps" by blast
  from package_loop_Inr[OF this]
  have "list_all2 entry_of ps (filter (name_matches t) (findall root ''package''))" by simp
  with \<open>e \<in> set ps\<close> show ?thesis
    by (auto simp: list_all2_conv_all_nth in_set_conv_nth)
qed

lemma repo_results_searched:
  "ps \<in> set (repo_results env config d a t ex rs st) \<Longrightarrow>
     \<exists>u n s. ps = fst (search_packages_in_repo env u t n s)"
proof (induction rs arbitrary: st)
  case Nil
  then show ?case by simp
next
  case (Cons repo rest)
  then show ?case by (auto split: sum.splits)
qed

lemma repo_loop_entries:
  assumes "repo_loop env config d a t ex rs [] st = (Inr res, st')" and "(e, r) \<in> set res"
  shows "\<exists>p. entry_of e p"
proof -
  from repo_loop_concat[OF assms(1)] assms(2)
  obtain repo ps where "(repo, ps) \<in> set (zip rs (repo_results env config d a t ex rs st))"
    and e: "e \<in> set ps" by auto
  then have "ps \<in> set (repo_results env config d a t ex rs st)"
    by (meson in_set_zipE)
  from repo_results_searched[OF this] e search_packages_in_repo_entries show ?thesis
    by blast
qed

lemma make_entry_arch:
  "make_entry p nm = Inr e \<Longrightarrow> \<exists>c. find_elem p ''arch'' = Some c \<and> arch e = elem_text c"
  by (auto simp: make_entry_def text_of_def split: sum.splits option.splits)

subsection \<open>Decimal numbers\<close>

lemma digit_inj: "d < 10 \<Longrightarrow> d' < 10 \<Longrightarrow> digit d = digit d' \<Longrightarrow> d = d'"
proof -
  assume a: "d < 10" "d' < 10" "digit d = digit d'"
  then have "(of_char (digit d) :: nat) = of_char (digit d')" by simp
  then have "(48 + d) mod 256 = (48 + d') mod 256" by (simp add: digit_def)
  with a show ?thesis by simp
qed

lemma str_of_nat_nonempty: "str_of_nat n \<noteq> []"
  by (subst str_of_nat.simps) simp

lemma str_of_nat_inj: "str_of_nat m = str_of_nat n \<Longrightarrow> m = n"
proof (induction m arbitrary: n rule: str_of_nat.induct)
  case (1 m)
  show ?case
  proof (cases "m < 10")
    case True
    then have m: "str_of_nat m = [digit m]" by (subst str_of_nat.simps) simp
    have "n < 10"
    proof (rule ccontr)
      assume "\<not> n < 10"
      then have "str_of_nat n = str_of_nat (n div 10) @ [digit (n mod 10)]"
        by (subst str_of_nat.simps) simp
      with m "1.prems" str_of_nat_nonempty[of "n div 10"] show False by simp
    qed
    then have "str_of_nat n = [digit n]" by (subst str_of_nat.simps) simp
    with m "1.prems" True \<open>n < 10\<close> show ?thesis by (simp add: digit_inj)
  next
    case False
    then have m: "str_of_nat m = str_of_nat (m div 10) @ [digit (m mod 10)]"
      by (subst str_of_nat.simps) simp
    have "\<not> n < 10"
    proof
      assume "n < 10"
      then have "str_of_nat n = [digit n]" by (subst str_of_nat.simps) simp
      with m "1.prems" str_of_nat_nonempty[of "m div 10"] show False by simp
    qed
    then have n: "str_of_nat n = str_of_nat (n div 10) @ [digit (n mod 10)]"
      by (subst str_of_nat.simps) simp
    from m n "1.prems" have e: "str_of_nat (m div 10) = str_of_nat (n div 10)"
      and d: "digit (m mod 10) = digit (n mod 10)" by simp_all
    from "1.IH"[OF False e] have "m div 10 = n div 10" .
    moreover from d have "m mod 10 = n mod 10" by (simp add: digit_inj)
    ultimately show ?thesis by (metis div_mult_mod_eq)
  qed
qed

subsection \<open>Order of the results\<close>

lemma repo_results_length:
  assumes "repo_loop env config d a t ex rs all_packages st = (Inr res, st')"
  shows "length (repo_results env config d a t ex rs st) = length rs"
  using assms
proof (induction rs arbitrary: all_packages st)
  case Nil
  then show ?case by simp
next
  case (Cons repo rest)
  from Cons.prems obtain u where u: "repomd_url_of config d a repo = Inr u"
    by (auto split: sum.splits)
  obtain ps s1 where s: "search_packages_in_repo env u t (d @ ''/'' @ repo) st = (ps, s1)"
    by (cases "search_packages_in_repo env u t (d @ ''/'' @ repo) st")
  have one: "snd (repo_loop env config d a t ex [repo] [] st) = report ex t ps s1"
    unfolding repo_loop_step[OF u s] by simp
  from Cons.prems have
    "repo_loop env config d a t ex rest (all_packages @ map (\<lambda>pkg. (pkg, repo)) ps) (report ex t ps s1)
       = (Inr res, st')"
    unfolding repo_loop_step[OF u s] .
  from Cons.IH[OF this] u one show ?case by simp
qed

lemma search_packages_in_repo_document_order:
  assumes "fst (search_packages_in_repo env u t n st) \<noteq> []"
  shows "\<exists>idx repomd root.
           requests_get env (requests st) u 30 = Inr idx
         \<and> fromstring env (strip_xmlns (content idx)) = Inr repomd
         \<and> package_list_of env u (findall_primary repomd)
              (requests (snd (search_packages_in_repo env u t n st))) root
         \<and> list_all2 entry_of (fst (search_packages_in_repo env u t n st))
              (filter (name_matches t) (findall root ''package''))"
proof -
  obtain ps st' where s: "search_packages_in_repo env u t n st = (ps, st')"
    by (cases "search_packages_in_repo env u t n st")
  with assms have ne: "ps \<noteq> []" by simp
  from search_packages_in_repo_nonempty[OF s ne] obtain idx repomd root where
    a: "requests_get env (requests st) u 30 = Inr idx"
    and b: "fromstring env (strip_xmlns (content idx)) = Inr repomd"
    and c: "package_list_of env u (findall_primary repomd) (requests st') root"
    and d: "package_loop t (findall root ''package'') [] = Inr ps"
    by blast
  from package_loop_Inr[OF d]
  have "list_all2 entry_of ps (filter (name_matches t) (findall root ''package''))" by simp
  with a b c s show ?thesis by auto
qed

subsection \<open>The argument parser\<close>

lemma parse_items_distro:
  "parse_items c seen extras a = Inr a' \<Longrightarrow> arg_distro a \<in> set distro_choices \<Longrightarrow>
     arg_distro a' \<in> set distro_choices"
  by (induction c seen extras a rule: parse_items.induct) (auto split: if_splits)

lemma parse_args_accepts:
  assumes "parse_args c = Inr a"
  shows "\<exists>config. map_of REPO_CONFIGS (arg_distro a) = Some config"
proof -
  have "arg_distro defaults \<in> set distro_choices"
    by (simp add: defaults_def distro_choices_def)
  from parse_items_distro[OF assms[unfolded parse_args_def] this]
  show ?thesis by (auto simp: distro_choices_def REPO_CONFIGS_def)
qed



lemma parse_items_search_term:
  "parse_items c seen extras a = Inr a' \<Longrightarrow>
     arg_search_term a' =
       (if seen \<or> list_ex is_positional c
        then (case rev (search_term_writes c seen) of [] \<Rightarrow> arg_search_term a | v # _ \<Rightarrow> Some v)
        else None)"
proof (induction c seen extras a rule: parse_items.induct)
  case (1 seen extras a)
  then show ?case by (auto split: if_splits)
next
  case (2 v rest seen extras a)
  then show ?case
    by (auto simp: is_positional_def split: if_splits list.splits)
next
  case (3 v rest seen extras a)
  then show ?case
    by (auto simp: is_positional_def split: if_splits list.splits)
next
  case (4 d rest seen extras a)
  then show ?case by (auto simp: is_positional_def split: if_splits list.splits)
next
  case (5 v rest seen extras a)
  then show ?case by (auto simp: is_positional_def split: if_splits list.splits)
next
  case (6 v rest seen extras a)
  then show ?case by (auto simp: is_positional_def split: if_splits list.splits)
next
  case (7 rest seen extras a)
  then show ?case by (auto simp: is_positional_def split: if_splits list.splits)
next
  case (8 rest seen extras a)
  then show ?case by simp
qed

lemma parse_args_search_term:
  assumes "parse_args c = Inr a"
  shows "arg_search_term a = stored_search_term c"
  using parse_items_search_term[OF assms[unfolded parse_args_def]]
  by (auto simp: stored_search_term_def defaults_def split: list.splits)


subsection \<open>Failures of one sub-repository\<close>

lemma search_packages_in_repo_index_failed:
  assumes "index_failed env (requests st) u"
  shows "fst (search_packages_in_repo env u t n st) = []"
proof (rule ccontr)
  assume ne: "fst (search_packages_in_repo env u t n st) \<noteq> []"
  obtain ps st' where s: "search_packages_in_repo env u t n st = (ps, st')"
    by (cases "search_packages_in_repo env u t n st")
  with ne have "ps \<noteq> []" by simp
  from search_packages_in_repo_nonempty[OF s this] assms show False
    by (auto simp: index_failed_def)
qed

lemma search_packages_in_repo_list_failed:
  assumes "requests (snd (search_packages_in_repo env u t n st)) = h @ [(primary_url, 60)]"
    and "package_list_failed env h primary_url"
  shows "fst (search_packages_in_repo env u t n st) = []"
proof (rule ccontr)
  assume ne: "fst (search_packages_in_repo env u t n st) \<noteq> []"
  obtain ps st' where s: "search_packages_in_repo env u t n st = (ps, st')"
    by (cases "search_packages_in_repo env u t n st")
  with ne have "ps \<noteq> []" by simp
  from search_packages_in_repo_nonempty[OF s this] obtain cs root where
    "package_list_of env u cs (requests st') root" by blast
  then obtain h' p' r d where
    "requests st' = h' @ [(p', 60)]" "requests_get env h' p' 60 = Inr r" "status_code r = 200"
    "gzip_decompress env (content r) = Inr d" "fromstring env (strip_xmlns d) = Inr root"
    unfolding package_list_of_def by blast
  with assms s show False
    by (auto simp: package_list_failed_def)
qed

lemma repo_loop_skip:
  assumes "repomd_url_of config d a repo = Inr u"
    and "fst (search_packages_in_repo env u t (d @ ''/'' @ repo) st) = []"
  shows "repo_loop env config d a t ex (repo # rest) all_packages st
           = repo_loop env config d a t ex rest all_packages
               (print '''' (print ''  No packages found''
                  (snd (search_packages_in_repo env u t (d @ ''/'' @ repo) st))))"
proof -
  obtain ps s1 where s: "search_packages_in_repo env u t (d @ ''/'' @ repo) st = (ps, s1)"
    by (cases "search_packages_in_repo env u t (d @ ''/'' @ repo) st")
  with assms(2) have "ps = []" by simp
  with s show ?thesis
    unfolding repo_loop_step[OF assms(1) s] by (simp add: report_def)
qed

subsection \<open>Package elements that lack a field\<close>

lemma lacks_field_name:
  "find_elem p ''name'' = None \<Longrightarrow> lacks_field t p"
  by (simp add: lacks_field_def package_name_def text_of_def)

lemma lacks_field_other:
  assumes "name_matches t p"
    and "find_elem p ''arch'' = None \<or> find_elem p ''version'' = None
         \<or> (\<exists>v. find_elem p ''version'' = Some v
                \<and> (map_of (attrib v) ''ver'' = None \<or> map_of (attrib v) ''rel'' = None))"
  shows "lacks_field t p"
proof -
  from assms(1) obtain nm where nm: "package_name p = Inr nm" "sublist (lower t) (lower nm)"
    by (auto simp: name_matches_def split: sum.splits)
  from assms(2) have "isl (make_entry p nm)"
    by (auto simp: make_entry_def text_of_def attrib_of_def split: sum.splits option.splits)
  with nm show ?thesis by (simp add: lacks_field_def)
qed

lemma search_packages_in_repo_lacks_field:
  assumes "requests (snd (search_packages_in_repo env u t n st)) = h @ [(primary_url, 60)]"
    and "requests_get env h primary_url 60 = Inr resp"
    and "gzip_decompress env (content resp) = Inr data"
    and "fromstring env (strip_xmlns data) = Inr root"
    and "p \<in> set (findall root ''package'')"
    and "lacks_field t p"
  shows "fst (search_packages_in_repo env u t n st) = []"
proof (rule ccontr)
  assume ne: "fst (search_packages_in_repo env u t n st) \<noteq> []"
  obtain ps st' where s: "search_packages_in_repo env u t n st = (ps, st')"
    by (cases "search_packages_in_repo env u t n st")
  with ne have "ps \<noteq> []" by simp
  from search_packages_in_repo_nonempty[OF s this] obtain cs root' where
    pl: "package_list_of env u cs (requests st') root'"
    and ok: "package_loop t (findall root' ''package'') [] = Inr ps" by blast
  from pl obtain h' p' r d where
    "requests st' = h' @ [(p', 60)]" "requests_get env h' p' 60 = Inr r"
    "gzip_decompress env (content r) = Inr d" "fromstring env (strip_xmlns d) = Inr root'"
    unfolding package_list_of_def by blast
  with assms(1-4) s have "root' = root" by auto
  with ok package_loop_Inl[OF assms(5,6), of "[]"] show False by simp
qed

subsection \<open>Requests of a search and the centos7 run\<close>

lemma primary_loop_requests:
  "\<exists>more. requests (snd (primary_loop env u t cs st)) = requests st @ more"
proof (induction cs arbitrary: st)
  case Nil
  then show ?case by simp
next
  case (Cons child rest)
  show ?case
  proof (cases "location_href child")
    case (Inl e)
    then show ?thesis by simp
  next
    case (Inr location)
    note loc = this
    show ?thesis
    proof (cases "urljoin env (replace u ''/repodata/repomd.xml'' ''/'') location")
      case (Inl e)
      then show ?thesis using loc by simp
    next
      case (Inr primary_url)
      define s1 where "s1 = snd (get env primary_url 60 (print ''  Fetching package data...'' st))"
      have g: "get env primary_url 60 (print ''  Fetching package data...'' st)
                 = (requests_get env (requests st) primary_url 60, s1)"
        by (simp add: s1_def get_def)
      have r: "requests s1 = requests st @ [(primary_url, 60)]" by (simp add: s1_def)
      from Cons.IH[of s1] obtain more where
        m: "requests (snd (primary_loop env u t rest s1)) = requests s1 @ more" by blast
      show ?thesis using loc Inr g r m
        by (auto split: sum.splits)
    qed
  qed
qed

lemma try_body_requests:
  "\<exists>more. requests (snd (try_body env u t st)) = requests st @ (u, 30) # more"
proof -
  define s1 where "s1 = snd (get env u 30 st)"
  have g: "get env u 30 st = (requests_get env (requests st) u 30, s1)"
    by (simp add: s1_def get_def)
  have r: "requests s1 = requests st @ [(u, 30)]" by (simp add: s1_def)
  show ?thesis
  proof (cases "requests_get env (requests st) u 30")
    case (Inl e)
    then show ?thesis using g r by (simp add: try_body_def)
  next
    case (Inr resp)
    note resp = this
    show ?thesis
    proof (cases "status_code resp = 200")
      case False
      then show ?thesis using resp g r by (simp add: try_body_def)
    next
      case True
      show ?thesis
      proof (cases "fromstring env (strip_xmlns (content resp))")
        case (Inl e)
        then show ?thesis using resp True g r by (simp add: try_body_def)
      next
        case (Inr repomd)
        from primary_loop_requests[of env u t "findall_primary repomd" s1] obtain more where
          m: "requests (snd (primary_loop env u t (findall_primary repomd) s1)) = requests s1 @ more"
          by blast
        obtain x p1 where e: "primary_loop env u t (findall_primary repomd) s1 = (x, p1)"
          by (cases "primary_loop env u t (findall_primary repomd) s1")
        with m r have "requests p1 = requests st @ (u, 30) # more" by simp
        then show ?thesis using resp True Inr g e
          by (auto simp: try_body_def split: sum.splits option.splits)
      qed
    qed
  qed
qed

lemma search_packages_in_repo_requests:
  "\<exists>more. requests (snd (search_packages_in_repo env u t n st)) = requests st @ (u, 30) # more"
proof -
  define s0 where "s0 = print (''Searching in '' @ n @ '': '' @ u) st"
  from try_body_requests[of env u t s0] obtain more where
    m: "requests (snd (try_body env u t s0)) = requests st @ (u, 30) # more"
    by (auto simp: s0_def)
  obtain x p1 where e: "try_body env u t s0 = (x, p1)" by (cases "try_body env u t s0")
  have "search_packages_in_repo env u t n st
          = (case x of Inl e \<Rightarrow> ([], print (''  Error: '' @ exc_str e) p1)
                     | Inr packages \<Rightarrow> (packages, p1))"
    unfolding search_packages_in_repo_def s0_def[symmetric] e by (simp split: sum.splits)
  with m e show ?thesis by (cases x) auto
qed

lemma repos_to_search_centos7:
  "repos_to_search r centos7_config = [centos7_label r]"
  by (simp add: repos_to_search_def centos7_config_def centos7_label_def split: option.splits)

lemma report_out:
  "\<exists>ls. \<forall>st. out (report ex t ps st) = out st @ ls"
proof (cases "ps = []")
  case True
  then show ?thesis by (simp add: report_def)
next
  case False
  then show ?thesis by (simp add: report_def print_found_out)
qed

lemma main_body_centos7:
  assumes "arg_distro a = ''centos7''" and "arg_search_term a = Some t" and "t \<noteq> []"
    and "search_packages_in_repo env
           (''https://vault.centos.org/7.9.2009/os/'' @ arg_architecture a @ ''/repodata/repomd.xml'')
           t (''centos7'' @ ''/'' @ centos7_label (arg_repo a)) st = (ps, s1)"
  shows "repo_loop env centos7_config ''centos7'' (arg_architecture a) t (arg_exact a)
           (repos_to_search (arg_repo a) centos7_config) [] st
           = (Inr (map (\<lambda>pkg. (pkg, centos7_label (arg_repo a))) ps), report (arg_exact a) t ps s1)"
    and "main_body env a st
           = (Return 0, summary (arg_exact a) t (map (\<lambda>pkg. (pkg, centos7_label (arg_repo a))) ps)
                          (report (arg_exact a) t ps s1))"
proof -
  have c: "map_of REPO_CONFIGS ''centos7'' = Some centos7_config"
    by (simp add: REPO_CONFIGS_def)
  show l: "repo_loop env centos7_config ''centos7'' (arg_architecture a) t (arg_exact a)
           (repos_to_search (arg_repo a) centos7_config) [] st
           = (Inr (map (\<lambda>pkg. (pkg, centos7_label (arg_repo a))) ps), report (arg_exact a) t ps s1)"
    unfolding repos_to_search_centos7
      repo_loop_step[OF repomd_url_of_centos7 assms(4)] by simp
  show "main_body env a st
           = (Return 0, summary (arg_exact a) t (map (\<lambda>pkg. (pkg, centos7_label (arg_repo a))) ps)
                          (report (arg_exact a) t ps s1))"
    using assms(1-3) c l by (simp add: main_body_def py_or_def truthy_def)
qed

subsection \<open>Replacing the index segment\<close>

lemma replace_from_skip:
  "replace_from old new (length xs) (xs @ ys) = replace_from old new 0 ys"
  by (induction xs) simp_all

lemma replace_from_self:
  assumes "old \<noteq> []"
  shows "replace_from old new 0 old = new"
proof -
  from assms obtain c cs where old: "old = c # cs" by (cases old) auto
  have "replace_from old new 0 (c # cs) = new @ replace_from old new (length cs) (cs @ [])"
    by (simp add: old)
  also have "\<dots> = new" by (simp only: replace_from_skip) simp
  finally show ?thesis by (simp add: old)
qed

lemma replace_from_single_occurrence:
  assumes "old \<noteq> []" and "\<forall>i < length b. \<not> prefix old (drop i (b @ old))"
  shows "replace_from old new 0 (b @ old) = b @ new"
  using assms(2)
proof (induction b)
  case Nil
  then show ?case using replace_from_self[OF assms(1)] by simp
next
  case (Cons c b)
  from Cons.prems have "\<not> prefix old (drop 0 ((c # b) @ old))" by blast
  then have np: "\<not> prefix old (c # b @ old)" by simp
  have "\<forall>i < length b. \<not> prefix old (drop i (b @ old))"
  proof (intro allI impI)
    fix i assume "i < length b"
    then have "Suc i < length (c # b)" by simp
    with Cons.prems have "\<not> prefix old (drop (Suc i) ((c # b) @ old))" by blast
    then show "\<not> prefix old (drop i (b @ old))" by simp
  qed
  from Cons.IH[OF this] np show ?case by simp
qed

lemma replace_single_occurrence:
  assumes "\<forall>i < length b. \<not> prefix ''/repodata/repomd.xml'' (drop i (b @ ''/repodata/repomd.xml''))"
  shows "replace (b @ ''/repodata/repomd.xml'') ''/repodata/repomd.xml'' ''/''
           = index_directory (b @ ''/repodata/repomd.xml'')"
proof -
  have "replace (b @ ''/repodata/repomd.xml'') ''/repodata/repomd.xml'' ''/'' = b @ ''/''"
    using replace_from_single_occurrence[OF _ assms, of "''/''"] by (simp add: replace_def)
  moreover have "b @ ''/repodata/repomd.xml'' = (b @ ''/'') @ ''repodata/repomd.xml''" by simp
  then have "index_directory (b @ ''/repodata/repomd.xml'') = b @ ''/''"
    unfolding index_directory_def by (simp only: suffixI if_True length_append) simp
  ultimately show ?thesis by simp
qed

section \<open>The claims\<close>

subsection \<open>C1\<close>

text \<open>
  Claim C1, amended. The filter of a sub-repository does not look at \<open>exact_match\<close>:
  when the loop over the package elements returns, its list holds, in document order,
  exactly the entries of the elements whose name contains the search term as a
  substring once both are in lower case, and the list accumulated over the
  sub-repositories is the same with and without \<open>--exact\<close>. \<open>--exact\<close> only
  restricts the lines printed under \<open>Found n packages:\<close> to the entries whose name
  equals the search term.
\<close>

theorem filter_is_substring_whatever_exact:
  "(package_loop t ps [] = Inr found \<longrightarrow> list_all2 entry_of found (filter (name_matches t) ps))
   \<and> fst (repo_loop env config d a t True rs all_packages st)
       = fst (repo_loop env config d a t False rs all_packages st)
   \<and> out (print_found ex t found st)
       = out st @ map (\<lambda>pkg. ''    '' @ full_name pkg) (filter (\<lambda>pkg. \<not> ex \<or> name pkg = t) found)"
proof (intro conjI impI)
  assume "package_loop t ps [] = Inr found"
  from package_loop_Inr[OF this] show "list_all2 entry_of found (filter (name_matches t) ps)"
    by simp
next
  show "fst (repo_loop env config d a t True rs all_packages st)
          = fst (repo_loop env config d a t False rs all_packages st)"
    using repo_loop_frame[of st st] by blast
next
  show "out (print_found ex t found st)
          = out st @ map (\<lambda>pkg. ''    '' @ full_name pkg) (filter (\<lambda>pkg. \<not> ex \<or> name pkg = t) found)"
    by (rule print_found_out)
qed

theorem filter_is_substring_whatever_exact_witness:
  "package_loop ''Kernel'' (findall kernel_doc ''package'') [] = Inr [kernel_entry, kernel_core_entry]
   \<and> list_all2 entry_of [kernel_entry, kernel_core_entry]
        (filter (name_matches ''Kernel'') (findall kernel_doc ''package''))
   \<and> out (print_found True ''kernel'' [kernel_entry, kernel_core_entry] init)
        = [''    kernel-5.14.0-427.el9.x86_64'']"
proof -
  have h: "package_loop ''Kernel'' (findall kernel_doc ''package'') [] = Inr [kernel_entry, kernel_core_entry]"
    by code_simp
  note th = filter_is_substring_whatever_exact[where t = "''Kernel''"
      and ps = "findall kernel_doc ''package''" and found = "[kernel_entry, kernel_core_entry]"]
  from th h have a: "list_all2 entry_of [kernel_entry, kernel_core_entry]
        (filter (name_matches ''Kernel'') (findall kernel_doc ''package''))"
    by blast
  from filter_is_substring_whatever_exact[where t = "''kernel''"
         and found = "[kernel_entry, kernel_core_entry]" and st = init and ex = True]
  have b: "out (print_found True ''kernel'' [kernel_entry, kernel_core_entry] init)
        = [''    kernel-5.14.0-427.el9.x86_64'']"
    by (simp add: kernel_entry_def kernel_core_entry_def entry_def init_def)
  from h a b show ?thesis by blast
qed

text \<open>
  Claim C1 as it is worded fails: in a run with \<open>--exact\<close> for \<open>kernel\<close> the
  list of the sub-repository BaseOS still holds \<open>kernel-core\<close>.
\<close>

theorem exact_run_keeps_substring_matches:
  "fst (repo_loop (serve alma9_site) alma9_config ''alma9'' ''x86_64'' ''kernel'' True
          [''BaseOS''] [] init)
     = Inr [(kernel_entry, ''BaseOS''), (kernel_core_entry, ''BaseOS'')]
   \<and> name kernel_core_entry \<noteq> ''kernel''"
proof -
  have "fst (repo_loop (serve alma9_site) alma9_config ''alma9'' ''x86_64'' ''kernel'' True
          [''BaseOS''] [] init)
     = Inr [(kernel_entry, ''BaseOS''), (kernel_core_entry, ''BaseOS'')]"
    by code_simp
  moreover have "name kernel_core_entry \<noteq> ''kernel''"
    by (simp add: kernel_core_entry_def entry_def)
  ultimately show ?thesis by simp
qed

subsection \<open>C2\<close>

text \<open>
  Claim C2. The summary prints the banner with the length of the accumulated list as
  it stands after the loop, before any exact filter, and under it one line
  \<open>full_name (from repo)\<close> for each accumulated pair that passes the exact filter
  applied again at this point, in order; this is what \<open>main\<close> prints last in every run
  that reaches the summary. The banner determines the count. With \<open>--exact\<close> the
  count can exceed the number of lines under it: searching \<open>kernel\<close> in BaseOS prints
  a count of 2 and one line.
\<close>

theorem summary_counts_before_exact_filter:
  "out (summary ex t all_packages st)
     = out st @ banner t (length all_packages)
       @ map summary_line (filter (\<lambda>x. \<not> ex \<or> name (fst x) = t) all_packages)
   \<and> (arg_search_term a = Some t \<and> t \<noteq> [] \<and> map_of REPO_CONFIGS (arg_distro a) = Some config \<longrightarrow>
        (\<exists>res st'.
           repo_loop env config (arg_distro a) (arg_architecture a) t (arg_exact a)
             (repos_to_search (arg_repo a) config) [] st = (Inr res, st')
         \<and> out (snd (main_body env a st))
             = out st' @ banner t (length res)
               @ map summary_line (filter (\<lambda>x. \<not> arg_exact a \<or> name (fst x) = t) res)))
   \<and> (banner t m = banner t n \<longrightarrow> m = n)
   \<and> drop 5 (out (snd (main_body (serve alma9_site) sample_args init)))
       = banner ''kernel'' 2 @ [''kernel-5.14.0-427.el9.x86_64 (from BaseOS)'']"
proof (intro conjI impI)
  show "out (summary ex t all_packages st)
     = out st @ banner t (length all_packages)
       @ map summary_line (filter (\<lambda>x. \<not> ex \<or> name (fst x) = t) all_packages)"
    by (rule summary_out)
next
  assume h: "arg_search_term a = Some t \<and> t \<noteq> [] \<and> map_of REPO_CONFIGS (arg_distro a) = Some config"
  from main_body_configured[of a t config env st] h obtain res st' where
    l: "repo_loop env config (arg_distro a) (arg_architecture a) t (arg_exact a)
             (repos_to_search (arg_repo a) config) [] st = (Inr res, st')"
    and m: "main_body env a st = (Return 0, summary (arg_exact a) t res st')"
    by blast
  from m have "out (snd (main_body env a st))
             = out st' @ banner t (length res)
               @ map summary_line (filter (\<lambda>x. \<not> arg_exact a \<or> name (fst x) = t) res)"
    by (simp add: summary_out)
  with l show "\<exists>res st'.
           repo_loop env config (arg_distro a) (arg_architecture a) t (arg_exact a)
             (repos_to_search (arg_repo a) config) [] st = (Inr res, st')
         \<and> out (snd (main_body env a st))
             = out st' @ banner t (length res)
               @ map summary_line (filter (\<lambda>x. \<not> arg_exact a \<or> name (fst x) = t) res)"
    by blast
next
  assume "banner t m = banner t n"
  then have "str_of_nat m = str_of_nat n" by (simp add: banner_def)
  then show "m = n" by (rule str_of_nat_inj)
next
  show "drop 5 (out (snd (main_body (serve alma9_site) sample_args init)))
       = banner ''kernel'' 2 @ [''kernel-5.14.0-427.el9.x86_64 (from BaseOS)'']"
    by code_simp
qed

theorem summary_counts_before_exact_filter_witness:
  "arg_search_term sample_args = Some ''kernel'' \<and> ''kernel'' \<noteq> []
   \<and> map_of REPO_CONFIGS (arg_distro sample_args) = Some alma9_config
   \<and> out (summary True ''kernel'' [(kernel_entry, ''BaseOS''), (kernel_core_entry, ''BaseOS'')] init)
       = banner ''kernel'' 2 @ [''kernel-5.14.0-427.el9.x86_64 (from BaseOS)'']
   \<and> (\<exists>res st'.
         repo_loop (serve alma9_site) alma9_config ''alma9'' ''x86_64'' ''kernel'' True [''BaseOS''] [] init
           = (Inr res, st')
       \<and> out (snd (main_body (serve alma9_site) sample_args init))
           = out st' @ banner ''kernel'' (length res)
             @ map summary_line (filter (\<lambda>x. \<not> True \<or> name (fst x) = ''kernel'') res))
   \<and> banner ''kernel'' 2 = banner ''kernel'' (Suc 1)"
proof -
  have h: "arg_search_term sample_args = Some ''kernel'' \<and> ''kernel'' \<noteq> []
           \<and> map_of REPO_CONFIGS (arg_distro sample_args) = Some alma9_config"
    by (simp add: sample_args_def REPO_CONFIGS_def)
  have b: "banner ''kernel'' 2 = banner ''kernel'' (Suc 1)"
    by (simp add: numeral_2_eq_2)
  note th = summary_counts_before_exact_filter[where ex = True and t = "''kernel''"
      and all_packages = "[(kernel_entry, ''BaseOS''), (kernel_core_entry, ''BaseOS'')]"
      and st = init and a = sample_args and config = alma9_config and env = "serve alma9_site"
      and m = 2 and n = "Suc 1"]
  from th[THEN conjunct1] have s: "out (summary True ''kernel'' [(kernel_entry, ''BaseOS''), (kernel_core_entry, ''BaseOS'')] init)
       = banner ''kernel'' 2 @ [''kernel-5.14.0-427.el9.x86_64 (from BaseOS)'']"
    by (simp add: init_def summary_line_def kernel_entry_def kernel_core_entry_def entry_def
          numeral_2_eq_2)
  from th[THEN conjunct2, THEN conjunct1] h have e: "\<exists>res st'.
         repo_loop (serve alma9_site) alma9_config ''alma9'' ''x86_64'' ''kernel'' True [''BaseOS''] [] init
           = (Inr res, st')
       \<and> out (snd (main_body (serve alma9_site) sample_args init))
           = out st' @ banner ''kernel'' (length res)
             @ map summary_line (filter (\<lambda>x. \<not> True \<or> name (fst x) = ''kernel'') res)"
    by (simp add: sample_args_def repos_to_search_def)
  from h s e b show ?thesis by blast
qed

subsection \<open>C3\<close>




subsection \<open>C4\<close>

text \<open>
  Claim C4, amended. A sub-repository contributes no entry when the fetch of its index
  fails (exception, status other than 200, or an answer that does not parse), when the
  last package-list fetch of its search fails (exception, status other than 200, or an
  answer that does not decompress or parse), and whenever the body of the search
  raises; a status other than 200 on a package-list fetch before the last one only moved
  the search on to the next \<open>primary\<close> entry. After a sub-repository without entries
  the loop goes on with the remaining ones and the accumulated list unchanged, and
  \<open>main\<close> returns 0 for every configured distribution whatever the network does.
\<close>

theorem failed_sub_repository_contributes_nothing:
  "(index_failed env (requests st) u \<longrightarrow> fst (search_packages_in_repo env u t n st) = [])
   \<and> (requests (snd (search_packages_in_repo env u t n st)) = h @ [(primary_url, 60)]
      \<and> package_list_failed env h primary_url \<longrightarrow>
        fst (search_packages_in_repo env u t n st) = [])
   \<and> (try_body env u t (print (''Searching in '' @ n @ '': '' @ u) st) = (Inl e, st') \<longrightarrow>
        search_packages_in_repo env u t n st = ([], print (''  Error: '' @ exc_str e) st'))
   \<and> (repomd_url_of config d a repo = Inr u
      \<and> fst (search_packages_in_repo env u t (d @ ''/'' @ repo) st) = [] \<longrightarrow>
        repo_loop env config d a t ex (repo # rest) all_packages st
          = repo_loop env config d a t ex rest all_packages
              (print '''' (print ''  No packages found''
                 (snd (search_packages_in_repo env u t (d @ ''/'' @ repo) st)))))
   \<and> (truthy (arg_search_term args) \<and> map_of REPO_CONFIGS (arg_distro args) \<noteq> None \<longrightarrow>
        fst (main_body env args st) = Return 0)"
proof (intro conjI impI)
  assume "index_failed env (requests st) u"
  then show "fst (search_packages_in_repo env u t n st) = []"
    by (rule search_packages_in_repo_index_failed)
next
  assume "requests (snd (search_packages_in_repo env u t n st)) = h @ [(primary_url, 60)]
      \<and> package_list_failed env h primary_url"
  then show "fst (search_packages_in_repo env u t n st) = []"
    using search_packages_in_repo_list_failed by blast
next
  assume "try_body env u t (print (''Searching in '' @ n @ '': '' @ u) st) = (Inl e, st')"
  then show "search_packages_in_repo env u t n st = ([], print (''  Error: '' @ exc_str e) st')"
    unfolding search_packages_in_repo_def by simp
next
  assume "repomd_url_of config d a repo = Inr u
      \<and> fst (search_packages_in_repo env u t (d @ ''/'' @ repo) st) = []"
  then show "repo_loop env config d a t ex (repo # rest) all_packages st
          = repo_loop env config d a t ex rest all_packages
              (print '''' (print ''  No packages found''
                 (snd (search_packages_in_repo env u t (d @ ''/'' @ repo) st))))"
    using repo_loop_skip by blast
next
  assume "truthy (arg_search_term args) \<and> map_of REPO_CONFIGS (arg_distro args) \<noteq> None"
  then obtain s config where "arg_search_term args = Some s" "s \<noteq> []"
    "map_of REPO_CONFIGS (arg_distro args) = Some config"
    by (auto simp: truthy_def split: option.splits)
  from main_body_configured[OF this, of env st]
  show "fst (main_body env args st) = Return 0" by auto
qed

theorem failed_sub_repository_contributes_nothing_witness:
  "index_failed (serve alma9_site) [] (alma9_url ''CRB'' ''repodata/repomd.xml'')
   \<and> fst (search_packages_in_repo (serve alma9_site) (alma9_url ''CRB'' ''repodata/repomd.xml'')
            ''kernel'' ''alma9/CRB'' init) = []
   \<and> requests (snd (search_packages_in_repo (serve missing_list_site)
         (alma9_url ''BaseOS'' ''repodata/repomd.xml'') ''kernel'' ''alma9/BaseOS'' init))
       = [(alma9_url ''BaseOS'' ''repodata/repomd.xml'', 30)]
         @ [(alma9_url ''BaseOS'' ''repodata/primary.xml.gz'', 60)]
   \<and> package_list_failed (serve missing_list_site)
         [(alma9_url ''BaseOS'' ''repodata/repomd.xml'', 30)]
         (alma9_url ''BaseOS'' ''repodata/primary.xml.gz'')
   \<and> fst (search_packages_in_repo (serve missing_list_site)
         (alma9_url ''BaseOS'' ''repodata/repomd.xml'') ''kernel'' ''alma9/BaseOS'' init) = []
   \<and> search_packages_in_repo (serve broken_site)
         (alma9_url ''BaseOS'' ''repodata/repomd.xml'') ''kernel'' ''alma9/BaseOS'' init
       = ([], print (''  Error: '' @ quoted ''NoneType'' @ '' object has no attribute '' @ quoted ''text'')
                (snd (try_body (serve broken_site) (alma9_url ''BaseOS'' ''repodata/repomd.xml'')
                        ''kernel''
                        (print (''Searching in '' @ ''alma9/BaseOS'' @ '': ''
                                @ alma9_url ''BaseOS'' ''repodata/repomd.xml'') init))))
   \<and> fst (repo_loop (serve alma9_site) alma9_config ''alma9'' ''x86_64'' ''kernel'' False
            [''CRB'', ''BaseOS''] [] init)
       = Inr [(kernel_entry, ''BaseOS''), (kernel_core_entry, ''BaseOS'')]
   \<and> fst (main_body (serve missing_list_site) sample_args init) = Return 0"
proof -
  let ?crb = "alma9_url ''CRB'' ''repodata/repomd.xml''"
  let ?idx = "alma9_url ''BaseOS'' ''repodata/repomd.xml''"
  let ?pri = "alma9_url ''BaseOS'' ''repodata/primary.xml.gz''"
  let ?hdr = "print (''Searching in '' @ ''alma9/BaseOS'' @ '': '' @ ?idx) init"
  let ?msg = "quoted ''NoneType'' @ '' object has no attribute '' @ quoted ''text''"
  have h1: "index_failed (serve alma9_site) (requests init) ?crb"
    by code_simp
  have h2: "requests (snd (search_packages_in_repo (serve missing_list_site) ?idx
              ''kernel'' ''alma9/BaseOS'' init)) = [(?idx, 30)] @ [(?pri, 60)]"
    by code_simp
  have h3: "package_list_failed (serve missing_list_site) [(?idx, 30)] ?pri"
    by code_simp
  have h4: "fst (try_body (serve broken_site) ?idx ''kernel'' ?hdr) = Inl (AttributeError ?msg)"
    by code_simp
  then have h4': "try_body (serve broken_site) ?idx ''kernel'' ?hdr
                    = (Inl (AttributeError ?msg), snd (try_body (serve broken_site) ?idx ''kernel'' ?hdr))"
    by (metis prod.collapse)
  have h5: "repomd_url_of alma9_config ''alma9'' ''x86_64'' ''CRB'' = Inr ?crb"
    by (simp add: repomd_url_of_alma9 alma9_url_def)
  have h6: "truthy (arg_search_term sample_args) \<and> map_of REPO_CONFIGS (arg_distro sample_args) \<noteq> None"
    by (simp add: truthy_def sample_args_def REPO_CONFIGS_def)
  note th = failed_sub_repository_contributes_nothing
  from th[where env = "serve alma9_site" and st = init and u = ?crb and t = "''kernel''"
          and n = "''alma9/CRB''", THEN conjunct1] h1
  have a: "fst (search_packages_in_repo (serve alma9_site) ?crb ''kernel'' ''alma9/CRB'' init) = []"
    by blast
  from th[where env = "serve missing_list_site" and st = init and u = ?idx and t = "''kernel''"
          and n = "''alma9/BaseOS''" and h = "[(?idx, 30)]" and primary_url = ?pri,
          THEN conjunct2, THEN conjunct1] h2 h3
  have b: "fst (search_packages_in_repo (serve missing_list_site) ?idx ''kernel'' ''alma9/BaseOS'' init) = []"
    by blast
  from th[where env = "serve broken_site" and st = init and u = ?idx and t = "''kernel''"
          and n = "''alma9/BaseOS''" and e = "AttributeError ?msg"
          and st' = "snd (try_body (serve broken_site) ?idx ''kernel'' ?hdr)",
          THEN conjunct2, THEN conjunct2, THEN conjunct1] h4'
  have c: "search_packages_in_repo (serve broken_site) ?idx ''kernel'' ''alma9/BaseOS'' init
       = ([], print (''  Error: '' @ ?msg)
                (snd (try_body (serve broken_site) ?idx ''kernel'' ?hdr)))"
    by simp
  have a': "fst (search_packages_in_repo (serve alma9_site) ?crb ''kernel'' (''alma9'' @ ''/'' @ ''CRB'') init) = []"
    using a by simp
  from th[where env = "serve alma9_site" and st = init and u = ?crb and t = "''kernel''"
          and config = alma9_config and d = "''alma9''" and a = "''x86_64''" and repo = "''CRB''"
          and rest = "[''BaseOS'']" and all_packages = "[]" and ex = False,
          THEN conjunct2, THEN conjunct2, THEN conjunct2, THEN conjunct1] h5 a'
  have d: "repo_loop (serve alma9_site) alma9_config ''alma9'' ''x86_64'' ''kernel'' False
             (''CRB'' # [''BaseOS'']) [] init
           = repo_loop (serve alma9_site) alma9_config ''alma9'' ''x86_64'' ''kernel'' False
               [''BaseOS''] []
               (print '''' (print ''  No packages found''
                 (snd (search_packages_in_repo (serve alma9_site) ?crb ''kernel''
                        (''alma9'' @ ''/'' @ ''CRB'') init))))"
    by blast
  have d': "fst (repo_loop (serve alma9_site) alma9_config ''alma9'' ''x86_64'' ''kernel'' False
               [''BaseOS''] []
               (print '''' (print ''  No packages found''
                 (snd (search_packages_in_repo (serve alma9_site) ?crb ''kernel''
                        (''alma9'' @ ''/'' @ ''CRB'') init)))))
            = Inr [(kernel_entry, ''BaseOS''), (kernel_core_entry, ''BaseOS'')]"
    by code_simp
  from d d' have d'': "fst (repo_loop (serve alma9_site) alma9_config ''alma9'' ''x86_64'' ''kernel'' False
            [''CRB'', ''BaseOS''] [] init)
       = Inr [(kernel_entry, ''BaseOS''), (kernel_core_entry, ''BaseOS'')]"
    by simp
  from th[where env = "serve missing_list_site" and st = init and args = sample_args,
          THEN conjunct2, THEN conjunct2, THEN conjunct2, THEN conjunct2] h6
  have e: "fst (main_body (serve missing_list_site) sample_args init) = Return 0"
    by blast
  have h1': "index_failed (serve alma9_site) [] ?crb"
    using h1 by (simp add: init_def)
  from h1' a h2 h3 b c d'' e show ?thesis by simp
qed

text \<open>
  Claim C4 as it is worded fails: the first package-list fetch of this search is
  answered with 404, and the sub-repository still contributes two entries, taken from
  the second \<open>primary\<close> entry of its index.
\<close>

theorem second_primary_entry_is_used:
  "requests (snd (search_packages_in_repo (serve fallback_site)
       (alma9_url ''BaseOS'' ''repodata/repomd.xml'') ''kernel'' ''alma9/BaseOS'' init))
     = [(alma9_url ''BaseOS'' ''repodata/repomd.xml'', 30),
        (alma9_url ''BaseOS'' ''repodata/old-primary.xml.gz'', 60),
        (alma9_url ''BaseOS'' ''repodata/primary.xml.gz'', 60)]
   \<and> requests_get (serve fallback_site) [(alma9_url ''BaseOS'' ''repodata/repomd.xml'', 30)]
        (alma9_url ''BaseOS'' ''repodata/old-primary.xml.gz'') 60
     = Inr \<lparr>status_code = 404, content = []\<rparr>
   \<and> fst (search_packages_in_repo (serve fallback_site)
       (alma9_url ''BaseOS'' ''repodata/repomd.xml'') ''kernel'' ''alma9/BaseOS'' init)
     = [kernel_entry, kernel_core_entry]"
  by code_simp

subsection \<open>C5\<close>

text \<open>
  Claim C5, amended. Every package entry the search builds (by \<open>make_entry\<close>, in
  every list \<open>search_packages_in_repo\<close> returns, in the list accumulated by the
  loop) stores as architecture the text of the \<open>arch\<close> child and as full identifier
  its name, \<open>-\<close>, its version, \<open>-\<close>, its release, \<open>.\<close> and its architecture: when
  the architecture is a string this is the concatenation of the four stored fields;
  when the \<open>arch\<close> child has no text the stored architecture is \<open>None\<close>, the
  identifier ends in \<open>.None\<close>, and the concatenation of the stored fields does not
  exist.
\<close>

theorem full_name_renders_the_four_fields:
  "(make_entry p nm = Inr e \<longrightarrow>
      name e = nm
    \<and> (\<exists>c. find_elem p ''arch'' = Some c \<and> arch e = elem_text c)
    \<and> identifier_rule e)
   \<and> (e \<in> set (fst (search_packages_in_repo env u t n st)) \<longrightarrow> identifier_rule e)
   \<and> (repo_loop env config d a t ex rs [] st = (Inr res, st') \<and> (e, r) \<in> set res \<longrightarrow>
        identifier_rule e)
   \<and> (identifier_rule e \<and> arch e = Some ar \<longrightarrow>
        full_name e = name e @ ''-'' @ version e @ ''-'' @ release e @ ''.'' @ ar
      \<and> concatenation e = Some (full_name e))
   \<and> (identifier_rule e \<and> arch e = None \<longrightarrow>
        full_name e = name e @ ''-'' @ version e @ ''-'' @ release e @ ''.None''
      \<and> concatenation e = None)"
proof (intro conjI impI)
  assume m: "make_entry p nm = Inr e"
  from make_entry_rule[OF m] show "name e = nm" and "identifier_rule e" by simp_all
  from make_entry_arch[OF m] show "\<exists>c. find_elem p ''arch'' = Some c \<and> arch e = elem_text c" .
next
  assume "e \<in> set (fst (search_packages_in_repo env u t n st))"
  from search_packages_in_repo_entries[OF this] make_entry_rule
  show "identifier_rule e" unfolding entry_of_def by blast
next
  assume "repo_loop env config d a t ex rs [] st = (Inr res, st') \<and> (e, r) \<in> set res"
  then have "\<exists>p. entry_of e p" using repo_loop_entries by blast
  with make_entry_rule show "identifier_rule e" unfolding entry_of_def by blast
next
  assume h: "identifier_rule e \<and> arch e = Some ar"
  then show "full_name e = name e @ ''-'' @ version e @ ''-'' @ release e @ ''.'' @ ar"
    by (auto simp: identifier_rule_def)
  with h show "concatenation e = Some (full_name e)"
    by (auto simp: concatenation_def)
next
  assume h: "identifier_rule e \<and> arch e = None"
  then show "full_name e = name e @ ''-'' @ version e @ ''-'' @ release e @ ''.None''"
    by (auto simp: identifier_rule_def)
  from h show "concatenation e = None"
    by (auto simp: concatenation_def)
qed

theorem full_name_renders_the_four_fields_witness:
  "make_entry (package_elem ''kernel'' ''x86_64'' ''5.14.0'' ''427.el9'') ''kernel'' = Inr kernel_entry
   \<and> arch kernel_entry = Some ''x86_64''
   \<and> full_name kernel_entry = ''kernel-5.14.0-427.el9.x86_64''
   \<and> concatenation kernel_entry = Some ''kernel-5.14.0-427.el9.x86_64''
   \<and> kernel_core_entry \<in> set (fst (search_packages_in_repo (serve alma9_site)
         (alma9_url ''BaseOS'' ''repodata/repomd.xml'') ''kernel'' ''alma9/BaseOS'' init))
   \<and> identifier_rule kernel_core_entry
   \<and> fst (repo_loop (serve textless_arch_site) alma9_config ''alma9'' ''x86_64'' ''kernel'' False
            [''BaseOS''] [] init)
       = Inr [(textless_arch_entry, ''BaseOS'')]
   \<and> arch textless_arch_entry = None
   \<and> full_name textless_arch_entry = ''kernel-5.14.0-427.el9.None''
   \<and> concatenation textless_arch_entry = None"
proof -
  let ?loop = "repo_loop (serve textless_arch_site) alma9_config ''alma9'' ''x86_64'' ''kernel'' False
                 [''BaseOS''] [] init"
  have h1: "make_entry (package_elem ''kernel'' ''x86_64'' ''5.14.0'' ''427.el9'') ''kernel''
              = Inr kernel_entry"
    by code_simp
  have h2: "kernel_core_entry \<in> set (fst (search_packages_in_repo (serve alma9_site)
              (alma9_url ''BaseOS'' ''repodata/repomd.xml'') ''kernel'' ''alma9/BaseOS'' init))"
    by code_simp
  have h3: "fst ?loop = Inr [(textless_arch_entry, ''BaseOS'')]"
    by code_simp
  then have h3': "?loop = (Inr [(textless_arch_entry, ''BaseOS'')], snd ?loop)"
    by (metis prod.collapse)
  have h4: "(textless_arch_entry, ''BaseOS'') \<in> set [(textless_arch_entry, ''BaseOS'')]"
    by simp
  have h5: "arch kernel_entry = Some ''x86_64''" "arch textless_arch_entry = None"
    by (simp_all add: kernel_entry_def entry_def textless_arch_entry_def)
  note th = full_name_renders_the_four_fields
  from th[where p = "package_elem ''kernel'' ''x86_64'' ''5.14.0'' ''427.el9''"
          and nm = "''kernel''" and e = kernel_entry, THEN conjunct1] h1
  have r1: "identifier_rule kernel_entry" by blast
  from th[where e = kernel_entry and ar = "''x86_64''",
          THEN conjunct2, THEN conjunct2, THEN conjunct2, THEN conjunct1] r1 h5(1)
  have a: "full_name kernel_entry = ''kernel-5.14.0-427.el9.x86_64''"
    and a': "concatenation kernel_entry = Some ''kernel-5.14.0-427.el9.x86_64''"
    by (simp_all add: kernel_entry_def entry_def)
  from th[where e = kernel_core_entry and env = "serve alma9_site"
          and u = "alma9_url ''BaseOS'' ''repodata/repomd.xml''" and t = "''kernel''"
          and n = "''alma9/BaseOS''" and st = init, THEN conjunct2, THEN conjunct1] h2
  have b: "identifier_rule kernel_core_entry" by blast
  from th[where e = textless_arch_entry and env = "serve textless_arch_site"
          and config = alma9_config and d = "''alma9''" and a = "''x86_64''" and t = "''kernel''"
          and ex = False and rs = "[''BaseOS'']" and st = init
          and res = "[(textless_arch_entry, ''BaseOS'')]" and st' = "snd ?loop"
          and r = "''BaseOS''", THEN conjunct2, THEN conjunct2, THEN conjunct1] h3' h4
  have r3: "identifier_rule textless_arch_entry" by blast
  from th[where e = textless_arch_entry,
          THEN conjunct2, THEN conjunct2, THEN conjunct2, THEN conjunct2] r3 h5(2)
  have c: "full_name textless_arch_entry = ''kernel-5.14.0-427.el9.None''"
    and c': "concatenation textless_arch_entry = None"
    by (simp_all add: textless_arch_entry_def)
  from h1 h5 a a' h2 b h3 c c' show ?thesis by simp
qed

text \<open>
  Claim C5 as it is worded fails: for a package element whose \<open>arch\<close> child has no
  text the search stores the architecture \<open>None\<close> and the identifier
  \<open>kernel-5.14.0-427.el9.None\<close>, which is not the concatenation of the four stored
  fields: that concatenation raises \<open>TypeError\<close>.
\<close>

theorem textless_arch_breaks_concatenation:
  "fst (search_packages_in_repo (serve textless_arch_site)
          (alma9_url ''BaseOS'' ''repodata/repomd.xml'') ''kernel'' ''alma9/BaseOS'' init)
     = [textless_arch_entry]
   \<and> arch textless_arch_entry = None
   \<and> full_name textless_arch_entry = ''kernel-5.14.0-427.el9.None''
   \<and> concatenation textless_arch_entry \<noteq> Some (full_name textless_arch_entry)"
proof -
  have "fst (search_packages_in_repo (serve textless_arch_site)
          (alma9_url ''BaseOS'' ''repodata/repomd.xml'') ''kernel'' ''alma9/BaseOS'' init)
     = [textless_arch_entry]"
    by code_simp
  then show ?thesis
    by (simp add: textless_arch_entry_def concatenation_def)
qed

subsection \<open>C6\<close>

text \<open>
  Claim C6 asks for the package-list address to be joined against the address of the
  index without its trailing segment \<open>repodata/repomd.xml\<close>, also when that segment
  occurs earlier in the address. The code calls \<open>replace\<close>, which rewrites every
  occurrence; the two agree when the segment occurs only at the end
  (\<open>replace_single_occurrence\<close>). With \<open>--architecture x/repodata/repomd.xml.d\<close> the
  address of the index holds the segment twice, the base handed to \<open>urljoin\<close> is
  \<open>.../BaseOS/x/.d/os/\<close> instead of \<open>.../BaseOS/x/repodata/repomd.xml.d/os/\<close>, and
  the package list is requested from there.
\<close>

theorem replace_hits_every_occurrence:
  "repomd_url_of alma9_config ''alma9'' ''x/repodata/repomd.xml.d'' ''BaseOS'' = Inr nested_index_url
   \<and> replace nested_index_url ''/repodata/repomd.xml'' ''/''
       = ''https://vault.almalinux.org/9.4/BaseOS/x/.d/os/''
   \<and> index_directory nested_index_url
       = ''https://vault.almalinux.org/9.4/BaseOS/x/repodata/repomd.xml.d/os/''
   \<and> requests (snd (main (serve nested_site)
         [Positional ''kernel'', Opt_distro ''alma9'', Opt_repo ''BaseOS'',
          Opt_architecture ''x/repodata/repomd.xml.d'']))
       = [(nested_index_url, 30),
          (''https://vault.almalinux.org/9.4/BaseOS/x/.d/os/repodata/primary.xml.gz'', 60)]"
proof (intro conjI)
  show "repomd_url_of alma9_config ''alma9'' ''x/repodata/repomd.xml.d'' ''BaseOS'' = Inr nested_index_url"
    by (simp add: repomd_url_of_alma9 nested_index_url_def)
  show "replace nested_index_url ''/repodata/repomd.xml'' ''/''
       = ''https://vault.almalinux.org/9.4/BaseOS/x/.d/os/''"
    by code_simp
  show "index_directory nested_index_url
       = ''https://vault.almalinux.org/9.4/BaseOS/x/repodata/repomd.xml.d/os/''"
    by code_simp
  show "requests (snd (main (serve nested_site)
         [Positional ''kernel'', Opt_distro ''alma9'', Opt_repo ''BaseOS'',
          Opt_architecture ''x/repodata/repomd.xml.d'']))
       = [(nested_index_url, 30),
          (''https://vault.almalinux.org/9.4/BaseOS/x/.d/os/repodata/primary.xml.gz'', 60)]"
    by code_simp
qed

subsection \<open>C7\<close>

text \<open>
  Claim C7. The accumulated result is the concatenation, in the order in which the
  sub-repositories were searched, of the lists \<open>search_packages_in_repo\<close> returned,
  each entry paired with the name of its sub-repository; a non-empty list of one
  sub-repository holds the entries of the matching package elements of its package
  list in document order; nothing is removed, so that \<open>kernel\<close> and \<open>kernel-core\<close>,
  listed by both BaseOS and AppStream, are accumulated once for each.
\<close>

theorem results_in_search_and_document_order:
  "(repo_loop env config d a t ex rs all_packages st = (Inr res, st') \<longrightarrow>
      length (repo_results env config d a t ex rs st) = length rs
    \<and> res = all_packages
            @ concat (map (\<lambda>(repo, ps). map (\<lambda>pkg. (pkg, repo)) ps)
                          (zip rs (repo_results env config d a t ex rs st))))
   \<and> (fst (search_packages_in_repo env u t n st) \<noteq> [] \<longrightarrow>
       (\<exists>idx repomd root.
           requests_get env (requests st) u 30 = Inr idx
         \<and> fromstring env (strip_xmlns (content idx)) = Inr repomd
         \<and> package_list_of env u (findall_primary repomd)
              (requests (snd (search_packages_in_repo env u t n st))) root
         \<and> list_all2 entry_of (fst (search_packages_in_repo env u t n st))
              (filter (name_matches t) (findall root ''package''))))
   \<and> fst (repo_loop (serve alma9_site) alma9_config ''alma9'' ''x86_64'' ''kernel'' False
            [''BaseOS'', ''AppStream''] [] init)
       = Inr [(kernel_entry, ''BaseOS''), (kernel_core_entry, ''BaseOS''),
              (kernel_entry, ''AppStream''), (kernel_core_entry, ''AppStream'')]"
proof (intro conjI impI)
  assume h: "repo_loop env config d a t ex rs all_packages st = (Inr res, st')"
  from repo_results_length[OF h]
  show "length (repo_results env config d a t ex rs st) = length rs" .
  from repo_loop_concat[OF h]
  show "res = all_packages
            @ concat (map (\<lambda>(repo, ps). map (\<lambda>pkg. (pkg, repo)) ps)
                          (zip rs (repo_results env config d a t ex rs st)))" .
next
  assume "fst (search_packages_in_repo env u t n st) \<noteq> []"
  from search_packages_in_repo_document_order[OF this]
  show "\<exists>idx repomd root.
           requests_get env (requests st) u 30 = Inr idx
         \<and> fromstring env (strip_xmlns (content idx)) = Inr repomd
         \<and> package_list_of env u (findall_primary repomd)
              (requests (snd (search_packages_in_repo env u t n st))) root
         \<and> list_all2 entry_of (fst (search_packages_in_repo env u t n st))
              (filter (name_matches t) (findall root ''package''))" .
next
  show "fst (repo_loop (serve alma9_site) alma9_config ''alma9'' ''x86_64'' ''kernel'' False
            [''BaseOS'', ''AppStream''] [] init)
       = Inr [(kernel_entry, ''BaseOS''), (kernel_core_entry, ''BaseOS''),
              (kernel_entry, ''AppStream''), (kernel_core_entry, ''AppStream'')]"
    by code_simp
qed

theorem results_in_search_and_document_order_witness:
  "fst (repo_loop (serve alma9_site) alma9_config ''alma9'' ''x86_64'' ''kernel'' False
         [''BaseOS'', ''AppStream''] [] init)
     = Inr [(kernel_entry, ''BaseOS''), (kernel_core_entry, ''BaseOS''),
            (kernel_entry, ''AppStream''), (kernel_core_entry, ''AppStream'')]
   \<and> length (repo_results (serve alma9_site) alma9_config ''alma9'' ''x86_64'' ''kernel'' False
         [''BaseOS'', ''AppStream''] init) = 2
   \<and> [(kernel_entry, ''BaseOS''), (kernel_core_entry, ''BaseOS''),
       (kernel_entry, ''AppStream''), (kernel_core_entry, ''AppStream'')]
      = concat (map (\<lambda>(repo, ps). map (\<lambda>pkg. (pkg, repo)) ps)
          (zip [''BaseOS'', ''AppStream'']
             (repo_results (serve alma9_site) alma9_config ''alma9'' ''x86_64'' ''kernel'' False
                [''BaseOS'', ''AppStream''] init)))
   \<and> fst (search_packages_in_repo (serve alma9_site) (alma9_url ''BaseOS'' ''repodata/repomd.xml'')
            ''kernel'' ''alma9/BaseOS'' init) \<noteq> []
   \<and> (\<exists>root. list_all2 entry_of
         (fst (search_packages_in_repo (serve alma9_site)
                (alma9_url ''BaseOS'' ''repodata/repomd.xml'') ''kernel'' ''alma9/BaseOS'' init))
         (filter (name_matches ''kernel'') (findall root ''package'')))"
proof -
  let ?res = "[(kernel_entry, ''BaseOS''), (kernel_core_entry, ''BaseOS''),
               (kernel_entry, ''AppStream''), (kernel_core_entry, ''AppStream'')]"
  let ?loop = "repo_loop (serve alma9_site) alma9_config ''alma9'' ''x86_64'' ''kernel'' False
                 [''BaseOS'', ''AppStream''] [] init"
  let ?search = "search_packages_in_repo (serve alma9_site)
                   (alma9_url ''BaseOS'' ''repodata/repomd.xml'') ''kernel'' ''alma9/BaseOS'' init"
  have h1: "fst ?loop = Inr ?res"
    by code_simp
  then have h1': "?loop = (Inr ?res, snd ?loop)"
    by (metis prod.collapse)
  have h2: "fst ?search \<noteq> []"
    by code_simp
  note th = results_in_search_and_document_order[where env = "serve alma9_site"
      and config = alma9_config and d = "''alma9''" and a = "''x86_64''" and t = "''kernel''"
      and ex = False and rs = "[''BaseOS'', ''AppStream'']" and all_packages = "[]" and st = init
      and res = ?res and st' = "snd ?loop"
      and u = "alma9_url ''BaseOS'' ''repodata/repomd.xml''" and n = "''alma9/BaseOS''"]
  from th[THEN conjunct1] h1' have
    a: "length (repo_results (serve alma9_site) alma9_config ''alma9'' ''x86_64'' ''kernel'' False
         [''BaseOS'', ''AppStream''] init) = 2"
    and b: "?res = concat (map (\<lambda>(repo, ps). map (\<lambda>pkg. (pkg, repo)) ps)
          (zip [''BaseOS'', ''AppStream'']
             (repo_results (serve alma9_site) alma9_config ''alma9'' ''x86_64'' ''kernel'' False
                [''BaseOS'', ''AppStream''] init)))"
    by simp_all
  from th[THEN conjunct2, THEN conjunct1] h2 have
    c: "\<exists>root. list_all2 entry_of (fst ?search)
         (filter (name_matches ''kernel'') (findall root ''package''))"
    by blast
  from h1 h2 a b c show ?thesis by blast
qed

subsection \<open>C8\<close>

text \<open>
  Claim C8. The search term of a run is the value the parser left under the one
  attribute \<open>search_term\<close>, which the positional argument and \<open>--search-term\<close> share:
  \<open>args.search_term or args.search_term\<close> is \<open>args.search_term\<close>; that attribute
  holds the last value stored while the command line was read; a stored value that is
  \<open>None\<close> or empty ends the run through \<open>parser.error\<close> and nothing else is
  consulted in its place, and any other stored value is the term the loop searches for
  and the summary prints. A positional string followed by \<open>--search-term\<close> counts for
  nothing, and so does a \<open>--search-term\<close> followed by the positional string; without
  a positional string the run ends in \<open>parser.error\<close> whatever \<open>--search-term\<close> gave.
\<close>

theorem search_term_read_once:
  "py_or (arg_search_term a) (arg_search_term a) = arg_search_term a
   \<and> (parse_args c = Inr a \<longrightarrow> arg_search_term a = stored_search_term c)
   \<and> (parse_args c = Inr a \<and> \<not> truthy (stored_search_term c) \<longrightarrow>
        main env c = (SystemExit 2, init))
   \<and> (parse_args c = Inr a \<and> stored_search_term c = Some s \<and> s \<noteq> [] \<longrightarrow>
        (\<exists>config res st'.
           map_of REPO_CONFIGS (arg_distro a) = Some config
         \<and> repo_loop env config (arg_distro a) (arg_architecture a) s (arg_exact a)
             (repos_to_search (arg_repo a) config) [] init = (Inr res, st')
         \<and> main env c = (Return 0, summary (arg_exact a) s res st')))
   \<and> main env (Positional p # Opt_search_term f # rest) = main env (Positional f # rest)
   \<and> main env (Opt_search_term f # Positional p # rest) = main env (Positional p # rest)
   \<and> (parse_args c = Inr a \<and> \<not> list_ex is_positional c \<longrightarrow>
        main env c = (SystemExit 2, init))"
proof (intro conjI impI)
  show "py_or (arg_search_term a) (arg_search_term a) = arg_search_term a"
    by (simp add: py_or_def)
next
  assume "parse_args c = Inr a"
  then show "arg_search_term a = stored_search_term c" by (rule parse_args_search_term)
next
  assume h: "parse_args c = Inr a \<and> \<not> truthy (stored_search_term c)"
  then have "\<not> truthy (arg_search_term a)" using parse_args_search_term[of c a] by simp
  then have "main_body env a init = (SystemExit 2, init)"
    by (auto simp: main_body_def py_or_def truthy_def split: option.splits)
  with h show "main env c = (SystemExit 2, init)" by (simp add: main_def)
next
  assume h: "parse_args c = Inr a \<and> stored_search_term c = Some s \<and> s \<noteq> []"
  then have s: "arg_search_term a = Some s" "s \<noteq> []"
    using parse_args_search_term[of c a] by simp_all
  from h parse_args_accepts[of c a] obtain config where
    cfg: "map_of REPO_CONFIGS (arg_distro a) = Some config" by blast
  from main_body_configured[OF s cfg, of env init] obtain res st' where
    "repo_loop env config (arg_distro a) (arg_architecture a) s (arg_exact a)
       (repos_to_search (arg_repo a) config) [] init = (Inr res, st')"
    "main_body env a init = (Return 0, summary (arg_exact a) s res st')" by blast
  with h cfg show "\<exists>config res st'.
           map_of REPO_CONFIGS (arg_distro a) = Some config
         \<and> repo_loop env config (arg_distro a) (arg_architecture a) s (arg_exact a)
             (repos_to_search (arg_repo a) config) [] init = (Inr res, st')
         \<and> main env c = (Return 0, summary (arg_exact a) s res st')"
    by (auto simp: main_def)
next
  show "main env (Positional p # Opt_search_term f # rest) = main env (Positional f # rest)"
    by (simp add: main_def parse_args_def)
next
  show "main env (Opt_search_term f # Positional p # rest) = main env (Positional p # rest)"
    by (simp add: main_def parse_args_def)
next
  assume h: "parse_args c = Inr a \<and> \<not> list_ex is_positional c"
  then have "arg_search_term a = None"
    using parse_args_search_term[of c a] by (simp add: stored_search_term_def)
  then have "main_body env a init = (SystemExit 2, init)"
    by (simp add: main_body_def py_or_def truthy_def)
  with h show "main env c = (SystemExit 2, init)" by (simp add: main_def)
qed

theorem search_term_read_once_witness:
  "parse_args [Positional ''bash'', Opt_search_term ''kernel'', Opt_repo ''BaseOS'', Opt_exact]
     = Inr sample_args
   \<and> stored_search_term [Positional ''bash'', Opt_search_term ''kernel'', Opt_repo ''BaseOS'', Opt_exact]
       = Some ''kernel''
   \<and> fst (main (serve alma9_site)
            [Positional ''bash'', Opt_search_term ''kernel'', Opt_repo ''BaseOS'', Opt_exact])
       = Return 0
   \<and> parse_args [Positional ''kernel'', Opt_search_term []]
       = Inr (defaults\<lparr>arg_search_term := Some []\<rparr>)
   \<and> \<not> truthy (stored_search_term [Positional ''kernel'', Opt_search_term []])
   \<and> main (serve alma9_site) [Positional ''kernel'', Opt_search_term []] = (SystemExit 2, init)
   \<and> parse_args [Opt_search_term ''kernel''] = Inr defaults
   \<and> \<not> list_ex is_positional [Opt_search_term ''kernel'']
   \<and> main (serve alma9_site) [Opt_search_term ''kernel''] = (SystemExit 2, init)"
proof -
  let ?c1 = "[Positional ''bash'', Opt_search_term ''kernel'', Opt_repo ''BaseOS'', Opt_exact]"
  let ?c2 = "[Positional ''kernel'', Opt_search_term []]"
  let ?c3 = "[Opt_search_term ''kernel'']"
  have p1: "parse_args ?c1 = Inr sample_args"
    by (simp add: parse_args_def defaults_def sample_args_def)
  have p2: "parse_args ?c2 = Inr (defaults\<lparr>arg_search_term := Some []\<rparr>)"
    by (simp add: parse_args_def)
  have p3: "parse_args ?c3 = Inr defaults"
    by (simp add: parse_args_def defaults_def)
  have s1: "stored_search_term ?c1 = Some ''kernel'' \<and> ''kernel'' \<noteq> []"
    by (simp add: stored_search_term_def is_positional_def)
  have s2: "\<not> truthy (stored_search_term ?c2)"
    by (simp add: stored_search_term_def is_positional_def truthy_def)
  have s3: "\<not> list_ex is_positional ?c3"
    by (simp add: is_positional_def)
  note th = search_term_read_once
  from th[where c = ?c1 and a = sample_args and env = "serve alma9_site" and s = "''kernel''",
        THEN conjunct2, THEN conjunct2, THEN conjunct2, THEN conjunct1] p1 s1
  have a: "fst (main (serve alma9_site) ?c1) = Return 0" by auto
  from th[where c = ?c2 and a = "defaults\<lparr>arg_search_term := Some []\<rparr>" and env = "serve alma9_site",
        THEN conjunct2, THEN conjunct2, THEN conjunct1] p2 s2
  have b: "main (serve alma9_site) ?c2 = (SystemExit 2, init)" by blast
  from th[where c = ?c3 and a = defaults and env = "serve alma9_site",
        THEN conjunct2, THEN conjunct2, THEN conjunct2, THEN conjunct2, THEN conjunct2,
        THEN conjunct2] p3 s3
  have c: "main (serve alma9_site) ?c3 = (SystemExit 2, init)" by blast
  from p1 s1 a p2 s2 b p3 s3 c show ?thesis by blast
qed

subsection \<open>C9\<close>

text \<open>
  Claim C9. A package element lacks a field when it has no \<open>name\<close> child, or when its
  name matches the filter and it has no \<open>arch\<close> child, no \<open>version\<close> child, or a
  \<open>version\<close> child without \<open>ver\<close> or without \<open>rel\<close>. If the package list of a
  sub-repository holds such an element, the loop over the package elements raises
  whatever it has collected so far, and the sub-repository yields no package at all:
  the entries of the well-formed matching elements before it are lost with it.
\<close>

theorem missing_field_empties_sub_repository:
  "(find_elem p ''name'' = None \<longrightarrow> lacks_field t p)
   \<and> (name_matches t p
      \<and> (find_elem p ''arch'' = None \<or> find_elem p ''version'' = None
         \<or> (\<exists>v. find_elem p ''version'' = Some v
                \<and> (map_of (attrib v) ''ver'' = None \<or> map_of (attrib v) ''rel'' = None))) \<longrightarrow>
        lacks_field t p)
   \<and> (p \<in> set ps \<and> lacks_field t p \<longrightarrow> isl (package_loop t ps collected))
   \<and> (requests (snd (search_packages_in_repo env u t n st)) = h @ [(primary_url, 60)]
      \<and> requests_get env h primary_url 60 = Inr resp
      \<and> gzip_decompress env (content resp) = Inr data
      \<and> fromstring env (strip_xmlns data) = Inr root
      \<and> p \<in> set (findall root ''package'') \<and> lacks_field t p \<longrightarrow>
        fst (search_packages_in_repo env u t n st) = [])"
proof (intro conjI impI)
  assume "find_elem p ''name'' = None"
  then show "lacks_field t p" by (rule lacks_field_name)
next
  assume "name_matches t p
      \<and> (find_elem p ''arch'' = None \<or> find_elem p ''version'' = None
         \<or> (\<exists>v. find_elem p ''version'' = Some v
                \<and> (map_of (attrib v) ''ver'' = None \<or> map_of (attrib v) ''rel'' = None)))"
  then show "lacks_field t p" using lacks_field_other by blast
next
  assume "p \<in> set ps \<and> lacks_field t p"
  then show "isl (package_loop t ps collected)" using package_loop_Inl by blast
next
  assume "requests (snd (search_packages_in_repo env u t n st)) = h @ [(primary_url, 60)]
      \<and> requests_get env h primary_url 60 = Inr resp
      \<and> gzip_decompress env (content resp) = Inr data
      \<and> fromstring env (strip_xmlns data) = Inr root
      \<and> p \<in> set (findall root ''package'') \<and> lacks_field t p"
  then show "fst (search_packages_in_repo env u t n st) = []"
    using search_packages_in_repo_lacks_field by blast
qed

theorem missing_field_empties_sub_repository_witness:
  "name_matches ''kernel'' (package_elem ''kernel'' ''x86_64'' ''5.14.0'' ''427.el9'')
   \<and> name_matches ''kernel'' (last (children broken_doc))
   \<and> find_elem (last (children broken_doc)) ''arch'' = None
   \<and> lacks_field ''kernel'' (last (children broken_doc))
   \<and> last (children broken_doc) \<in> set (findall broken_doc ''package'')
   \<and> isl (package_loop ''kernel'' (findall broken_doc ''package'') [kernel_entry])
   \<and> requests (snd (search_packages_in_repo (serve broken_site)
         (alma9_url ''BaseOS'' ''repodata/repomd.xml'') ''kernel'' ''alma9/BaseOS'' init))
       = [(alma9_url ''BaseOS'' ''repodata/repomd.xml'', 30)]
         @ [(alma9_url ''BaseOS'' ''repodata/primary.xml.gz'', 60)]
   \<and> fromstring (serve broken_site) (strip_xmlns (alma9_url ''BaseOS'' ''repodata/primary.xml.gz''))
       = Inr broken_doc
   \<and> fst (search_packages_in_repo (serve broken_site)
         (alma9_url ''BaseOS'' ''repodata/repomd.xml'') ''kernel'' ''alma9/BaseOS'' init) = []"
proof -
  let ?idx = "alma9_url ''BaseOS'' ''repodata/repomd.xml''"
  let ?pri = "alma9_url ''BaseOS'' ''repodata/primary.xml.gz''"
  let ?p = "last (children broken_doc)"
  let ?resp = "\<lparr>status_code = 200, content = ?pri\<rparr>"
  have g: "name_matches ''kernel'' (package_elem ''kernel'' ''x86_64'' ''5.14.0'' ''427.el9'')"
    by code_simp
  have h1: "name_matches ''kernel'' ?p"
    by code_simp
  have h2: "find_elem ?p ''arch'' = None"
    by code_simp
  have h3: "?p \<in> set (findall broken_doc ''package'')"
    by code_simp
  have h4: "requests (snd (search_packages_in_repo (serve broken_site) ?idx ''kernel''
              ''alma9/BaseOS'' init)) = [(?idx, 30)] @ [(?pri, 60)]"
    by code_simp
  have h5: "requests_get (serve broken_site) [(?idx, 30)] ?pri 60 = Inr ?resp"
    by code_simp
  have h6: "gzip_decompress (serve broken_site) (content ?resp) = Inr ?pri"
    by (simp add: serve_def)
  have h7: "fromstring (serve broken_site) (strip_xmlns ?pri) = Inr broken_doc"
    by code_simp
  note th = missing_field_empties_sub_repository
  from th[where p = ?p and t = "''kernel''", THEN conjunct2, THEN conjunct1] h1 h2
  have a: "lacks_field ''kernel'' ?p" by blast
  from th[where p = ?p and t = "''kernel''" and ps = "findall broken_doc ''package''"
          and collected = "[kernel_entry]", THEN conjunct2, THEN conjunct2, THEN conjunct1] h3 a
  have b: "isl (package_loop ''kernel'' (findall broken_doc ''package'') [kernel_entry])" by blast
  from th[where p = ?p and t = "''kernel''" and env = "serve broken_site" and u = ?idx
          and n = "''alma9/BaseOS''" and st = init and h = "[(?idx, 30)]" and primary_url = ?pri
          and resp = ?resp and data = ?pri and root = broken_doc,
          THEN conjunct2, THEN conjunct2, THEN conjunct2] h4 h5 h6 h7 h3 a
  have c: "fst (search_packages_in_repo (serve broken_site) ?idx ''kernel'' ''alma9/BaseOS'' init) = []"
    by blast
  from g h1 h2 a h3 b h4 h7 c show ?thesis by blast
qed

subsection \<open>C10\<close>

text \<open>
  Claim C10. For centos7 the address of the index does not depend on \<open>--repo\<close>. Two
  runs from the same state that differ only in \<open>--repo\<close> (given or not) search one
  sub-repository each, make the same requests, the first of them to the index address
  built from the architecture alone, find the same entries and return 0; the value of
  \<open>--repo\<close> shows only as the label in the header line, in the pairs accumulated and
  in the lines of the final listing.
\<close>

theorem centos7_index_ignores_repo:
  "arg_distro a = ''centos7'' \<and> arg_search_term a = Some t \<and> t \<noteq> [] \<longrightarrow>
     (\<exists>found more lines.
        (\<forall>r \<in> {r1, r2}.
           fst (repo_loop env centos7_config ''centos7'' (arg_architecture a) t (arg_exact a)
                  (repos_to_search r centos7_config) [] st)
             = Inr (map (\<lambda>pkg. (pkg, centos7_label r)) found)
         \<and> fst (main_body env (a\<lparr>arg_repo := r\<rparr>) st) = Return 0
         \<and> requests (snd (main_body env (a\<lparr>arg_repo := r\<rparr>) st))
             = requests st
               @ (''https://vault.centos.org/7.9.2009/os/'' @ arg_architecture a
                  @ ''/repodata/repomd.xml'', 30) # more
         \<and> out (snd (main_body env (a\<lparr>arg_repo := r\<rparr>) st))
             = out st
               @ (''Searching in centos7/'' @ centos7_label r @ '': ''
                  @ ''https://vault.centos.org/7.9.2009/os/'' @ arg_architecture a
                  @ ''/repodata/repomd.xml'')
               # lines
               @ map (\<lambda>pkg. full_name pkg @ '' (from '' @ centos7_label r @ '')'')
                     (filter (\<lambda>pkg. \<not> arg_exact a \<or> name pkg = t) found)))"
proof (intro impI)
  assume h: "arg_distro a = ''centos7'' \<and> arg_search_term a = Some t \<and> t \<noteq> []"
  define u where
    "u = ''https://vault.centos.org/7.9.2009/os/'' @ arg_architecture a @ ''/repodata/repomd.xml''"
  define S where "S r = search_packages_in_repo env u t (''centos7'' @ ''/'' @ centos7_label r) st" for r
  define hdr where "hdr r = ''Searching in '' @ (''centos7'' @ ''/'' @ centos7_label r) @ '': '' @ u" for r
  define found where "found = fst (S r1)"
  from search_packages_in_repo_requests[of env u t "''centos7'' @ ''/'' @ centos7_label r1" st]
  obtain more where more: "requests (snd (S r1)) = requests st @ (u, 30) # more"
    unfolding S_def by blast
  from search_packages_in_repo_frame[of st st env u t "''centos7'' @ ''/'' @ centos7_label r2"
         "''centos7'' @ ''/'' @ centos7_label r1"]
  obtain l0 where
    f2: "fst (S r2) = found" and q2: "requests (snd (S r2)) = requests (snd (S r1))"
    and o1: "out (snd (S r1)) = out st @ hdr r1 # l0"
    and o2: "out (snd (S r2)) = out st @ hdr r2 # l0"
    unfolding found_def S_def hdr_def by blast
  from report_out[of "arg_exact a" t found] obtain l1 where
    l1: "\<And>s. out (report (arg_exact a) t found s) = out s @ l1" by blast
  define lines where "lines = l0 @ l1 @ banner t (length found)"
  have key: "fst (repo_loop env centos7_config ''centos7'' (arg_architecture a) t (arg_exact a)
                  (repos_to_search r centos7_config) [] st)
             = Inr (map (\<lambda>pkg. (pkg, centos7_label r)) found)
         \<and> fst (main_body env (a\<lparr>arg_repo := r\<rparr>) st) = Return 0
         \<and> requests (snd (main_body env (a\<lparr>arg_repo := r\<rparr>) st)) = requests st @ (u, 30) # more
         \<and> out (snd (main_body env (a\<lparr>arg_repo := r\<rparr>) st))
             = out st @ hdr r # lines
               @ map (\<lambda>pkg. full_name pkg @ '' (from '' @ centos7_label r @ '')'')
                     (filter (\<lambda>pkg. \<not> arg_exact a \<or> name pkg = t) found)"
    if r: "fst (S r) = found" "requests (snd (S r)) = requests st @ (u, 30) # more"
      "out (snd (S r)) = out st @ hdr r # l0" for r
  proof -
    let ?a = "a\<lparr>arg_repo := r\<rparr>"
    have s: "search_packages_in_repo env
               (''https://vault.centos.org/7.9.2009/os/'' @ arg_architecture ?a @ ''/repodata/repomd.xml'')
               t (''centos7'' @ ''/'' @ centos7_label (arg_repo ?a)) st = (found, snd (S r))"
      using r(1) unfolding S_def u_def by (simp add: prod_eq_iff)
    have d: "arg_distro ?a = ''centos7''" "arg_search_term ?a = Some t" using h by simp_all
    from h have tne: "t \<noteq> []" by simp
    note mb = main_body_centos7[OF d tne s]
    have e: "arg_exact ?a = arg_exact a" "arg_repo ?a = r" "arg_architecture ?a = arg_architecture a"
      by simp_all
    have fm: "map summary_line
                (filter (\<lambda>x. \<not> arg_exact a \<or> name (fst x) = t)
                   (map (\<lambda>pkg. (pkg, centos7_label r)) found))
                = map (\<lambda>pkg. full_name pkg @ '' (from '' @ centos7_label r @ '')'')
                    (filter (\<lambda>pkg. \<not> arg_exact a \<or> name pkg = t) found)"
      by (induction found) (auto simp: summary_line_def)
    have "out (snd (main_body env ?a st))
            = out (snd (S r)) @ l1 @ banner t (length found)
              @ map summary_line
                  (filter (\<lambda>x. \<not> arg_exact a \<or> name (fst x) = t)
                     (map (\<lambda>pkg. (pkg, centos7_label r)) found))"
      unfolding mb(2) e snd_conv summary_out l1 by simp
    also have "\<dots> = out st @ hdr r # lines
               @ map (\<lambda>pkg. full_name pkg @ '' (from '' @ centos7_label r @ '')'')
                     (filter (\<lambda>pkg. \<not> arg_exact a \<or> name pkg = t) found)"
      unfolding fm r(3) lines_def by simp
    finally have 1: "out (snd (main_body env ?a st))
            = out st @ hdr r # lines
               @ map (\<lambda>pkg. full_name pkg @ '' (from '' @ centos7_label r @ '')'')
                     (filter (\<lambda>pkg. \<not> arg_exact a \<or> name pkg = t) found)" .
    have 2: "requests (snd (main_body env ?a st)) = requests st @ (u, 30) # more"
      unfolding mb(2) snd_conv summary_requests requests_report r(2) ..
    have 3: "fst (main_body env ?a st) = Return 0"
      unfolding mb(2) by simp
    have 4: "fst (repo_loop env centos7_config ''centos7'' (arg_architecture a) t (arg_exact a)
                  (repos_to_search r centos7_config) [] st)
             = Inr (map (\<lambda>pkg. (pkg, centos7_label r)) found)"
      using mb(1) unfolding e by simp
    from 1 2 3 4 show ?thesis by blast
  qed
  have k1: "fst (S r1) = found" by (simp add: found_def)
  note K1 = key[OF k1 more o1]
  note K2 = key[OF f2 q2[unfolded more] o2]
  have hd: "hdr r = ''Searching in centos7/'' @ centos7_label r @ '': '' @ u" for r
    by (simp add: hdr_def)
  show "\<exists>found more lines.
        (\<forall>r \<in> {r1, r2}.
           fst (repo_loop env centos7_config ''centos7'' (arg_architecture a) t (arg_exact a)
                  (repos_to_search r centos7_config) [] st)
             = Inr (map (\<lambda>pkg. (pkg, centos7_label r)) found)
         \<and> fst (main_body env (a\<lparr>arg_repo := r\<rparr>) st) = Return 0
         \<and> requests (snd (main_body env (a\<lparr>arg_repo := r\<rparr>) st))
             = requests st
               @ (''https://vault.centos.org/7.9.2009/os/'' @ arg_architecture a
                  @ ''/repodata/repomd.xml'', 30) # more
         \<and> out (snd (main_body env (a\<lparr>arg_repo := r\<rparr>) st))
             = out st
               @ (''Searching in centos7/'' @ centos7_label r @ '': ''
                  @ ''https://vault.centos.org/7.9.2009/os/'' @ arg_architecture a
                  @ ''/repodata/repomd.xml'')
               # lines
               @ map (\<lambda>pkg. full_name pkg @ '' (from '' @ centos7_label r @ '')'')
                     (filter (\<lambda>pkg. \<not> arg_exact a \<or> name pkg = t) found))"
    apply (rule exI[of _ found], rule exI[of _ more], rule exI[of _ lines])
    unfolding u_def[symmetric]
    using K1[unfolded hd] K2[unfolded hd] by blast
qed

theorem centos7_index_ignores_repo_witness:
  "arg_distro (sample_args\<lparr>arg_distro := ''centos7''\<rparr>) = ''centos7''
   \<and> arg_search_term (sample_args\<lparr>arg_distro := ''centos7''\<rparr>) = Some ''kernel''
   \<and> ''kernel'' \<noteq> []
   \<and> requests (snd (main_body (serve centos7_site)
         (sample_args\<lparr>arg_distro := ''centos7'', arg_repo := Some ''updates''\<rparr>) init))
       = requests (snd (main_body (serve centos7_site)
         (sample_args\<lparr>arg_distro := ''centos7'', arg_repo := None\<rparr>) init))
   \<and> hd (requests (snd (main_body (serve centos7_site)
         (sample_args\<lparr>arg_distro := ''centos7'', arg_repo := Some ''updates''\<rparr>) init)))
       = (''https://vault.centos.org/7.9.2009/os/x86_64/repodata/repomd.xml'', 30)
   \<and> hd (out (snd (main_body (serve centos7_site)
         (sample_args\<lparr>arg_distro := ''centos7'', arg_repo := Some ''updates''\<rparr>) init)))
       = ''Searching in centos7/updates: https://vault.centos.org/7.9.2009/os/x86_64/repodata/repomd.xml''
   \<and> hd (out (snd (main_body (serve centos7_site)
         (sample_args\<lparr>arg_distro := ''centos7'', arg_repo := None\<rparr>) init)))
       = ''Searching in centos7/os: https://vault.centos.org/7.9.2009/os/x86_64/repodata/repomd.xml''"
proof -
  let ?a = "sample_args\<lparr>arg_distro := ''centos7''\<rparr>"
  let ?run = "\<lambda>r. snd (main_body (serve centos7_site) (?a\<lparr>arg_repo := r\<rparr>) init)"
  have h: "arg_distro ?a = ''centos7'' \<and> arg_search_term ?a = Some ''kernel'' \<and> ''kernel'' \<noteq> []"
    by (simp add: sample_args_def)
  have arch: "arg_architecture ?a = ''x86_64''"
    by (simp add: sample_args_def)
  from centos7_index_ignores_repo[where a = ?a and t = "''kernel''" and env = "serve centos7_site"
         and st = init and ?r1.0 = "Some ''updates''" and ?r2.0 = None] h
  obtain found more lines where
    all: "\<forall>r \<in> {Some ''updates'', None}.
           fst (repo_loop (serve centos7_site) centos7_config ''centos7'' (arg_architecture ?a)
                  ''kernel'' (arg_exact ?a) (repos_to_search r centos7_config) [] init)
             = Inr (map (\<lambda>pkg. (pkg, centos7_label r)) found)
         \<and> fst (main_body (serve centos7_site) (?a\<lparr>arg_repo := r\<rparr>) init) = Return 0
         \<and> requests (?run r)
             = requests init
               @ (''https://vault.centos.org/7.9.2009/os/'' @ arg_architecture ?a
                  @ ''/repodata/repomd.xml'', 30) # more
         \<and> out (?run r)
             = out init
               @ (''Searching in centos7/'' @ centos7_label r @ '': ''
                  @ ''https://vault.centos.org/7.9.2009/os/'' @ arg_architecture ?a
                  @ ''/repodata/repomd.xml'')
               # lines
               @ map (\<lambda>pkg. full_name pkg @ '' (from '' @ centos7_label r @ '')'')
                     (filter (\<lambda>pkg. \<not> arg_exact ?a \<or> name pkg = ''kernel'') found)"
    by blast
  from all have r1: "requests (?run (Some ''updates''))
             = requests init @ (''https://vault.centos.org/7.9.2009/os/'' @ arg_architecture ?a
                  @ ''/repodata/repomd.xml'', 30) # more"
    and r2: "requests (?run None)
             = requests init @ (''https://vault.centos.org/7.9.2009/os/'' @ arg_architecture ?a
                  @ ''/repodata/repomd.xml'', 30) # more"
    and o1: "out (?run (Some ''updates''))
             = out init
               @ (''Searching in centos7/'' @ centos7_label (Some ''updates'') @ '': ''
                  @ ''https://vault.centos.org/7.9.2009/os/'' @ arg_architecture ?a
                  @ ''/repodata/repomd.xml'')
               # lines
               @ map (\<lambda>pkg. full_name pkg @ '' (from '' @ centos7_label (Some ''updates'') @ '')'')
                     (filter (\<lambda>pkg. \<not> arg_exact ?a \<or> name pkg = ''kernel'') found)"
    and o2: "out (?run None)
             = out init
               @ (''Searching in centos7/'' @ centos7_label None @ '': ''
                  @ ''https://vault.centos.org/7.9.2009/os/'' @ arg_architecture ?a
                  @ ''/repodata/repomd.xml'')
               # lines
               @ map (\<lambda>pkg. full_name pkg @ '' (from '' @ centos7_label None @ '')'')
                     (filter (\<lambda>pkg. \<not> arg_exact ?a \<or> name pkg = ''kernel'') found)"
    by blast+
  have a: "requests (?run (Some ''updates'')) = requests (?run None)"
    unfolding r1 r2 ..
  have b: "hd (requests (?run (Some ''updates'')))
             = (''https://vault.centos.org/7.9.2009/os/x86_64/repodata/repomd.xml'', 30)"
    unfolding r1 arch by (simp add: init_def)
  have c: "hd (out (?run (Some ''updates'')))
             = ''Searching in centos7/updates: https://vault.centos.org/7.9.2009/os/x86_64/repodata/repomd.xml''"
    unfolding o1 arch by (simp add: init_def centos7_label_def)
  have d: "hd (out (?run None))
             = ''Searching in centos7/os: https://vault.centos.org/7.9.2009/os/x86_64/repodata/repomd.xml''"
    unfolding o2 arch by (simp add: init_def centos7_label_def)
  from h a b c d show ?thesis by blast
qed

end
